theory Spec2Isabelle
  imports Main "HOL-Library.Sublist" "HOL-Library.AList"
begin

section \<open>Resource Governor: the shared counters with a limit\<close>

text \<open>
  \<^verbatim>\<open>GlobalSearchCounter\<close> (tools/google_search_tool.py), \<^verbatim>\<open>GlobalVisitCounter\<close>
  (tools/jina_visit.py) and \<^verbatim>\<open>GlobalCreateTableCounter\<close> (tools/db_table_code_v2.py) are
  the same class up to its name: the attributes \<^verbatim>\<open>limit\<close> and \<^verbatim>\<open>count\<close> and a lock. Every
  method body runs under the lock, so a method is one indivisible step on the pair of the
  two integers; the lock itself carries no data. Python integers are unbounded.
\<close>

record GlobalSearchCounter =
  limit :: int
  count :: int

text \<open>\<^verbatim>\<open>__init__(self, limit)\<close>: the count starts at 0.\<close>

definition init_counter :: "int \<Rightarrow> GlobalSearchCounter" where
  "init_counter l = \<lparr>limit = l, count = 0\<rparr>"

text \<open>
  \<^verbatim>\<open>
  def try_increment(self) -> bool:
      with self._lock:
          if self.count >= self.limit:
              return False
          self.count += 1
          return True
  \<close>
\<close>

definition try_increment :: "GlobalSearchCounter \<Rightarrow> bool \<times> GlobalSearchCounter" where
  "try_increment c =
     (if count c \<ge> limit c then (False, c)
      else (True, c\<lparr>count := count c + 1\<rparr>))"

definition get_count :: "GlobalSearchCounter \<Rightarrow> int \<times> GlobalSearchCounter" where
  "get_count c = (count c, c)"

definition get_remaining :: "GlobalSearchCounter \<Rightarrow> int \<times> GlobalSearchCounter" where
  "get_remaining c = (max 0 (limit c - count c), c)"

definition reset :: "GlobalSearchCounter \<Rightarrow> GlobalSearchCounter" where
  "reset c = c\<lparr>count := 0\<rparr>"

text \<open>The four operations a caller can perform, and a run of a sequence of them.\<close>

datatype counter_op = TryIncrement | GetCount | GetRemaining | Reset

fun apply_counter_op :: "counter_op \<Rightarrow> GlobalSearchCounter \<Rightarrow> GlobalSearchCounter" where
  "apply_counter_op TryIncrement c = snd (try_increment c)"
| "apply_counter_op GetCount c = snd (get_count c)"
| "apply_counter_op GetRemaining c = snd (get_remaining c)"
| "apply_counter_op Reset c = reset c"

fun run_counter_ops :: "counter_op list \<Rightarrow> GlobalSearchCounter \<Rightarrow> GlobalSearchCounter" where
  "run_counter_ops [] c = c"
| "run_counter_ops (x # xs) c = run_counter_ops xs (apply_counter_op x c)"

text \<open>\<open>n\<close> consecutive calls of \<^verbatim>\<open>try_increment\<close>: the answers in order, and the final state.\<close>

fun try_increment_times :: "nat \<Rightarrow> GlobalSearchCounter \<Rightarrow> bool list \<times> GlobalSearchCounter" where
  "try_increment_times 0 c = ([], c)"
| "try_increment_times (Suc n) c =
     (let (b, c') = try_increment c; (bs, c'') = try_increment_times n c'
      in (b # bs, c''))"

definition count_true :: "bool list \<Rightarrow> nat" where
  "count_true bs = length (filter (\<lambda>b. b) bs)"

subsection \<open>Properties of the Resource Governor\<close>

lemma apply_counter_op_limit: "limit (apply_counter_op x c) = limit c"
  by (cases x) (simp_all add: try_increment_def get_count_def get_remaining_def reset_def)

lemma apply_counter_op_bounds:
  "0 \<le> count c \<Longrightarrow> count c \<le> limit c \<Longrightarrow>
   0 \<le> count (apply_counter_op x c) \<and> count (apply_counter_op x c) \<le> limit c"
  by (cases x) (simp_all add: try_increment_def get_count_def get_remaining_def reset_def)

lemma run_counter_ops_bounds:
  "0 \<le> count c \<Longrightarrow> count c \<le> limit c \<Longrightarrow>
   0 \<le> count (run_counter_ops xs c) \<and> count (run_counter_ops xs c) \<le> limit c
   \<and> limit (run_counter_ops xs c) = limit c"
proof (induction xs arbitrary: c)
  case Nil
  then show ?case by simp
next
  case (Cons x xs)
  have b: "0 \<le> count (apply_counter_op x c)" "count (apply_counter_op x c) \<le> limit (apply_counter_op x c)"
    using apply_counter_op_bounds [OF Cons.prems] by (simp_all add: apply_counter_op_limit)
  show ?case
    using Cons.IH [OF b] by (simp add: apply_counter_op_limit)
qed

lemma try_increment_times_Suc:
  "fst (try_increment_times (Suc n) c)
     = fst (try_increment c) # fst (try_increment_times n (snd (try_increment c)))"
  "snd (try_increment_times (Suc n) c) = snd (try_increment_times n (snd (try_increment c)))"
  by (simp_all add: case_prod_beta)

lemma try_increment_times_successes:
  "count c \<le> limit c \<Longrightarrow>
   int (count_true (fst (try_increment_times n c))) = min (int n) (limit c - count c)
   \<and> count (snd (try_increment_times n c)) = count c + min (int n) (limit c - count c)
   \<and> limit (snd (try_increment_times n c)) = limit c"
proof (induction n arbitrary: c)
  case 0
  then show ?case by (simp add: count_true_def)
next
  case (Suc n)
  show ?case
  proof (cases "count c \<ge> limit c")
    case True
    then have t: "try_increment c = (False, c)" by (simp add: try_increment_def)
    from True Suc.prems have e: "limit c - count c = 0" by simp
    show ?thesis
      using Suc.IH [OF Suc.prems] e
      by (simp add: t count_true_def try_increment_times_Suc del: try_increment_times.simps)
  next
    case False
    let ?c = "c\<lparr>count := count c + 1\<rparr>"
    from False have t: "try_increment c = (True, ?c)" by (simp add: try_increment_def)
    from False have p: "count ?c \<le> limit ?c" by simp
    have m: "min (int (Suc n)) (limit c - count c) = 1 + min (int n) (limit ?c - count ?c)"
      using False by simp
    show ?thesis
      using Suc.IH [OF p]
      by (simp add: t m count_true_def try_increment_times_Suc del: try_increment_times.simps)
  qed
qed

text \<open>
  C1. A governor constructed with limit \<open>L \<ge> 0\<close> starts at count 0. In any state,
  \<^verbatim>\<open>try_increment\<close> answers true and adds exactly 1 to the count when the count is below
  the limit, and answers false and leaves the state as it is otherwise. Hence the count
  stays between 0 and \<open>L\<close> after every sequence of the four operations on the fresh
  governor, and of \<open>2L\<close> consecutive \<^verbatim>\<open>try_increment\<close> calls on it exactly \<open>L\<close> answer true.
\<close>

theorem C1_try_increment_bounded:
  assumes "0 \<le> L"
  shows "count (init_counter L) = 0 \<and> limit (init_counter L) = L
    \<and> (count c < limit c \<longrightarrow> try_increment c = (True, c\<lparr>count := count c + 1\<rparr>))
    \<and> (count d \<ge> limit d \<longrightarrow> try_increment d = (False, d))
    \<and> 0 \<le> count (run_counter_ops ops (init_counter L))
    \<and> count (run_counter_ops ops (init_counter L)) \<le> L
    \<and> count_true (fst (try_increment_times (nat (2 * L)) (init_counter L))) = nat L"
proof -
  have a: "count (init_counter L) = 0 \<and> limit (init_counter L) = L"
    by (simp add: init_counter_def)
  have b: "count c < limit c \<longrightarrow> try_increment c = (True, c\<lparr>count := count c + 1\<rparr>)"
    by (simp add: try_increment_def)
  have c: "count d \<ge> limit d \<longrightarrow> try_increment d = (False, d)"
    by (simp add: try_increment_def)
  have i: "0 \<le> count (init_counter L)" "count (init_counter L) \<le> limit (init_counter L)"
    using assms by (simp_all add: init_counter_def)
  have d: "0 \<le> count (run_counter_ops ops (init_counter L)) \<and>
        count (run_counter_ops ops (init_counter L)) \<le> L"
    using run_counter_ops_bounds [OF i, of ops] by (simp add: init_counter_def)
  have "int (count_true (fst (try_increment_times (nat (2 * L)) (init_counter L))))
        = min (int (nat (2 * L))) (limit (init_counter L) - count (init_counter L))"
    using try_increment_times_successes [OF i(2), of "nat (2 * L)"] by simp
  also have "\<dots> = L" using assms by (simp add: init_counter_def)
  finally have e: "count_true (fst (try_increment_times (nat (2 * L)) (init_counter L))) = nat L"
    by simp
  from a b c d e show ?thesis by blast
qed

theorem C1_try_increment_bounded_witness:
  "(0::int) \<le> 2
   \<and> count \<lparr>limit = 2, count = 1\<rparr> < limit \<lparr>limit = 2, count = 1\<rparr>
   \<and> try_increment \<lparr>limit = 2, count = 1\<rparr> = (True, \<lparr>limit = 2, count = 2\<rparr>)
   \<and> count \<lparr>limit = 2, count = 2\<rparr> \<ge> limit \<lparr>limit = 2, count = 2\<rparr>
   \<and> try_increment \<lparr>limit = 2, count = 2\<rparr> = (False, \<lparr>limit = 2, count = 2\<rparr>)
   \<and> count (run_counter_ops [TryIncrement, TryIncrement, TryIncrement, GetRemaining] (init_counter 2)) \<le> 2
   \<and> count_true (fst (try_increment_times (nat (2 * 2)) (init_counter 2))) = nat 2"
  using C1_try_increment_bounded [of 2 "\<lparr>limit = 2, count = 1\<rparr>" "\<lparr>limit = 2, count = 2\<rparr>"
      "[TryIncrement, TryIncrement, TryIncrement, GetRemaining]"]
  by simp

section \<open>Text\<close>

text \<open>
  Python \<^verbatim>\<open>str\<close> values are modelled as \<^typ>\<open>string\<close>; text outside ASCII stands in its
  UTF-8 encoding. \<^verbatim>\<open>str(n)\<close> of an integer is its decimal numeral, \<^verbatim>\<open>sep.join(xs)\<close> puts
  the separator between consecutive elements.
\<close>

definition digit_char :: "nat \<Rightarrow> char" where
  "digit_char d = ''0123456789'' ! d"

function str_nat :: "nat \<Rightarrow> string" where
  "str_nat n = (if n < 10 then [digit_char n] else str_nat (n div 10) @ [digit_char (n mod 10)])"
  by pat_completeness auto
termination
  by (relation "measure (\<lambda>n. n)") auto

definition str_int :: "int \<Rightarrow> string" where
  "str_int i = (if i < 0 then CHR ''-'' # str_nat (nat (- i)) else str_nat (nat i))"

fun join :: "string \<Rightarrow> string list \<Rightarrow> string" where
  "join sep [] = []"
| "join sep [x] = x"
| "join sep (x # y # ys) = x @ sep @ join sep (y # ys)"

definition startswith :: "string \<Rightarrow> string \<Rightarrow> bool" where
  "startswith s p = (take (length p) s = p)"

definition nl :: string where
  "nl = [CHR 0x0A]"

subsection \<open>The characters of a text\<close>

text \<open>
  The characters of a \<^verbatim>\<open>str\<close> are Unicode code points. A text is held here as the bytes of
  its UTF-8 encoding, so its characters are read back from the bytes: a byte below
  \<open>0xC0\<close> is a character by itself, a byte from \<open>0xC0\<close>, \<open>0xE0\<close> or \<open>0xF0\<close> on opens a
  character of two, three or four bytes. \<open>utf8_chars\<close> cuts a text into the byte groups
  of its characters, \<open>utf8_value\<close> is the code point of one group, and \<open>code_points\<close> is
  the text as Python sees it, character by character.
\<close>

definition utf8_width :: "char \<Rightarrow> nat" where
  "utf8_width b =
     (let n = (of_char b :: int)
      in if n < 0xC0 then 1 else if n < 0xE0 then 2 else if n < 0xF0 then 3 else 4)"

definition utf8_value :: "string \<Rightarrow> int" where
  "utf8_value g =
     (case g of
        [] \<Rightarrow> 0
      | b # r \<Rightarrow>
          (let n = (of_char b :: int)
           in if n < 0xC0 then n
              else foldl (\<lambda>v c. v * 64 + of_char c mod 64)
                     (n mod (if n < 0xE0 then 32 else if n < 0xF0 then 16 else 8)) r))"

function utf8_chars :: "string \<Rightarrow> string list" where
  "utf8_chars [] = []"
| "utf8_chars (b # bs) =
     (b # take (utf8_width b - 1) bs) # utf8_chars (drop (utf8_width b - 1) bs)"
  by pat_completeness auto
termination
  by (relation "measure length") auto



text \<open>
  The white space of Unicode: the characters for which \<^verbatim>\<open>str.isspace\<close> holds, which are
  the ones that \<^verbatim>\<open>str.strip()\<close> removes and that \<^verbatim>\<open>\s\<close> matches in a pattern on \<^verbatim>\<open>str\<close>.
\<close>

definition is_space :: "int \<Rightarrow> bool" where
  "is_space c \<longleftrightarrow>
     (0x09 \<le> c \<and> c \<le> 0x0D) \<or> (0x1C \<le> c \<and> c \<le> 0x20) \<or> c = 0x85 \<or> c = 0xA0
     \<or> c = 0x1680 \<or> (0x2000 \<le> c \<and> c \<le> 0x200A) \<or> c = 0x2028 \<or> c = 0x2029
     \<or> c = 0x202F \<or> c = 0x205F \<or> c = 0x3000"

text \<open>\<^verbatim>\<open>str.strip()\<close>: the text without its leading and trailing white space.\<close>

definition space_char :: "string \<Rightarrow> bool" where
  "space_char g = is_space (utf8_value g)"

definition strip :: "string \<Rightarrow> string" where
  "strip s = concat (rev (dropWhile space_char (rev (dropWhile space_char (utf8_chars s)))))"

section \<open>Call Governor: the per-worker call budget\<close>

text \<open>
  \<^verbatim>\<open>GlobalManagedAgentCounter\<close> (run_widesearch_inference.py). Its three dictionaries are
  association lists in insertion order (the order in which Python iterates a dict);
  \<^verbatim>\<open>d[k] = v\<close> is \<^const>\<open>AList.update\<close>, which keeps the position of an existing key.
  \<^verbatim>\<open>d[k]\<close> on a missing key raises \<^verbatim>\<open>KeyError\<close>. (The keys of a dictionary are distinct; a
  lookup in the list finds the first entry of a key.) The limits are Python integers. The
  timestamp of a call is the reading of the clock, \<^verbatim>\<open>datetime.now().isoformat()\<close>, passed in
  as \<open>now\<close>.
\<close>

datatype py_exn = KeyError string | Raised string

record call_entry =
  call_number :: int
  timestamp :: string

record GlobalManagedAgentCounter =
  limits :: "(string \<times> int) list"
  counts :: "(string \<times> int) list"
  call_history :: "(string \<times> call_entry list) list"

text \<open>
  \<^verbatim>\<open>
  def __init__(self, limits: dict[str, int] = None):
      self.limits = limits or {}
      self.counts = {agent_name: 0 for agent_name in self.limits.keys()}
      self.call_history = {agent_name: [] for agent_name in self.limits.keys()}
  \<close>
\<close>

definition init_managed_agent_counter :: "(string \<times> int) list option \<Rightarrow> GlobalManagedAgentCounter" where
  "init_managed_agent_counter lims =
     (let l = (case lims of None \<Rightarrow> [] | Some d \<Rightarrow> d)
      in \<lparr>limits = l,
          counts = map (\<lambda>(agent_name, _). (agent_name, 0)) l,
          call_history = map (\<lambda>(agent_name, _). (agent_name, [])) l\<rparr>)"

text \<open>
  \<^verbatim>\<open>
  def try_increment(self, agent_name: str) -> bool:
      with self._lock:
          if agent_name not in self.limits:
              return True
          if self.counts[agent_name] >= self.limits[agent_name]:
              return False
          self.counts[agent_name] += 1
          self.call_history[agent_name].append({
              "call_number": self.counts[agent_name],
              "timestamp": datetime.now().isoformat()
          })
          return True
  \<close>
\<close>

definition agent_try_increment ::
  "GlobalManagedAgentCounter \<Rightarrow> string \<Rightarrow> string \<Rightarrow> py_exn + (bool \<times> GlobalManagedAgentCounter)" where
  "agent_try_increment g agent_name now =
     (case map_of (limits g) agent_name of
        None \<Rightarrow> Inr (True, g)
      | Some l \<Rightarrow>
          (case map_of (counts g) agent_name of
             None \<Rightarrow> Inl (KeyError agent_name)
           | Some c \<Rightarrow>
               if c \<ge> l then Inr (False, g)
               else
                 (case map_of (call_history g) agent_name of
                    None \<Rightarrow> Inl (KeyError agent_name)
                  | Some h \<Rightarrow>
                      Inr (True,
                           g\<lparr>counts := AList.update agent_name (c + 1) (counts g),
                             call_history :=
                               AList.update agent_name
                                 (h @ [\<lparr>call_number = c + 1, timestamp = now\<rparr>])
                                 (call_history g)\<rparr>))))"

text \<open>
  \<^verbatim>\<open>get_count\<close> is \<^verbatim>\<open>self.counts.get(agent_name, 0)\<close>; \<^verbatim>\<open>get_limit\<close> is
  \<^verbatim>\<open>self.limits.get(agent_name, float('inf'))\<close>; \<^verbatim>\<open>get_remaining\<close> is infinite for a name
  without a limit and \<^verbatim>\<open>max(0, limit - count)\<close> otherwise.
\<close>

datatype py_limit = Finite int | Infinity

fun str_limit :: "py_limit \<Rightarrow> string" where
  "str_limit (Finite i) = str_int i"
| "str_limit Infinity = ''inf''"


definition agent_get_limit :: "GlobalManagedAgentCounter \<Rightarrow> string \<Rightarrow> py_limit" where
  "agent_get_limit g agent_name =
     (case map_of (limits g) agent_name of None \<Rightarrow> Infinity | Some l \<Rightarrow> Finite l)"

definition agent_get_remaining :: "GlobalManagedAgentCounter \<Rightarrow> string \<Rightarrow> py_exn + py_limit" where
  "agent_get_remaining g agent_name =
     (case map_of (limits g) agent_name of
        None \<Rightarrow> Inr Infinity
      | Some l \<Rightarrow>
          (case map_of (counts g) agent_name of
             None \<Rightarrow> Inl (KeyError agent_name)
           | Some c \<Rightarrow> Inr (Finite (max 0 (l - c)))))"

text \<open>
  \<^verbatim>\<open>
  def get_all_status(self) -> dict[str, dict]:
      with self._lock:
          return {
              agent_name: {
                  "count": self.counts[agent_name],
                  "limit": self.limits[agent_name],
                  "remaining": max(0, self.limits[agent_name] - self.counts[agent_name])
              }
              for agent_name in self.limits.keys()
          }
  \<close>
\<close>

record agent_status =
  status_count :: int
  status_limit :: int
  status_remaining :: int

fun all_status_of ::
  "(string \<times> int) list \<Rightarrow> (string \<times> int) list \<Rightarrow> py_exn + (string \<times> agent_status) list" where
  "all_status_of cs [] = Inr []"
| "all_status_of cs ((agent_name, l) # rest) =
     (case map_of cs agent_name of
        None \<Rightarrow> Inl (KeyError agent_name)
      | Some c \<Rightarrow>
          (case all_status_of cs rest of
             Inl e \<Rightarrow> Inl e
           | Inr sts \<Rightarrow>
               Inr ((agent_name,
                     \<lparr>status_count = c, status_limit = l, status_remaining = max 0 (l - c)\<rparr>) # sts)))"

definition get_all_status :: "GlobalManagedAgentCounter \<Rightarrow> py_exn + (string \<times> agent_status) list" where
  "get_all_status g = all_status_of (counts g) (limits g)"

text \<open>Consecutive calls of \<^verbatim>\<open>try_increment\<close> for one name, at the given clock readings.\<close>

fun agent_try_increment_calls ::
  "string \<Rightarrow> string list \<Rightarrow> GlobalManagedAgentCounter
     \<Rightarrow> py_exn + (bool list \<times> GlobalManagedAgentCounter)" where
  "agent_try_increment_calls agent_name [] g = Inr ([], g)"
| "agent_try_increment_calls agent_name (now # later) g =
     (case agent_try_increment g agent_name now of
        Inl e \<Rightarrow> Inl e
      | Inr (b, g') \<Rightarrow>
          (case agent_try_increment_calls agent_name later g' of
             Inl e \<Rightarrow> Inl e
           | Inr (bs, g'') \<Rightarrow> Inr (b # bs, g'')))"




subsection \<open>Properties of the Call Governor\<close>

text \<open>The three dictionaries of a governor built by the constructor have the same keys.\<close>

definition keys_agree :: "GlobalManagedAgentCounter \<Rightarrow> bool" where
  "keys_agree g \<longleftrightarrow>
     map fst (counts g) = map fst (limits g) \<and> map fst (call_history g) = map fst (limits g)"

lemma init_keys_agree: "keys_agree (init_managed_agent_counter lims)"
  by (simp add: keys_agree_def init_managed_agent_counter_def Let_def comp_def case_prod_beta)

lemma init_limits: "limits (init_managed_agent_counter (Some lims)) = lims"
  by (simp add: init_managed_agent_counter_def)

lemma map_of_zero: "map_of (map (\<lambda>(a, _). (a, v)) l) k = (if k \<in> fst ` set l then Some v else None)"
  by (induction l) auto

lemma init_counts:
  "map_of (counts (init_managed_agent_counter (Some lims))) k
     = (if k \<in> fst ` set lims then Some 0 else None)"
  by (simp add: init_managed_agent_counter_def map_of_zero)

lemma init_call_history:
  "map_of (call_history (init_managed_agent_counter (Some lims))) k
     = (if k \<in> fst ` set lims then Some [] else None)"
  by (simp add: init_managed_agent_counter_def map_of_zero)


lemma update_same_keys:
  assumes "map_of al k = Some v"
  shows "map fst (AList.update k w al) = map fst al"
proof -
  from assms have "k \<in> fst ` set al" by (metis map_of_eq_None_iff option.distinct(1))
  then show ?thesis by (simp add: update_keys)
qed


lemma agent_try_increment_denied:
  "map_of (limits g) n = Some l \<Longrightarrow> map_of (counts g) n = Some c \<Longrightarrow> c \<ge> l \<Longrightarrow>
   agent_try_increment g n now = Inr (False, g)"
  by (simp add: agent_try_increment_def)

lemma agent_try_increment_admitted:
  "map_of (limits g) n = Some l \<Longrightarrow> map_of (counts g) n = Some c \<Longrightarrow> c < l \<Longrightarrow>
   map_of (call_history g) n = Some h \<Longrightarrow>
   agent_try_increment g n now =
     Inr (True, g\<lparr>counts := AList.update n (c + 1) (counts g),
                  call_history := AList.update n (h @ [\<lparr>call_number = c + 1, timestamp = now\<rparr>])
                                    (call_history g)\<rparr>)"
  by (simp add: agent_try_increment_def)


text \<open>The entries that successful calls at the clock readings \<open>ts\<close> append after count \<open>c\<close>.\<close>

fun entries_from :: "int \<Rightarrow> string list \<Rightarrow> call_entry list" where
  "entries_from c [] = []"
| "entries_from c (t # ts) = \<lparr>call_number = c + 1, timestamp = t\<rparr> # entries_from (c + 1) ts"

lemma length_entries_from: "length (entries_from c ts) = length ts"
  by (induction ts arbitrary: c) simp_all

lemma timestamps_entries_from: "map timestamp (entries_from c ts) = ts"
  by (induction ts arbitrary: c) simp_all

lemma call_numbers_entries_from:
  "map call_number (entries_from c ts) = [c + 1 .. c + int (length ts)]"
proof (induction ts arbitrary: c)
  case Nil
  then show ?case by simp
next
  case (Cons t ts)
  have "[c + 1 .. c + int (length (t # ts))] = (c + 1) # [c + 1 + 1 .. c + int (length (t # ts))]"
    by (rule upto_rec1) simp
  then show ?case using Cons.IH [of "c + 1"] by (simp add: add.assoc)
qed

lemma agent_try_increment_calls_one_name:
  assumes "keys_agree g"
    and "map_of (limits g) n = Some l"
    and "map_of (counts g) n = Some c"
    and "c \<le> l"
    and "map_of (call_history g) n = Some h"
  shows "\<exists>g'. agent_try_increment_calls n ts g
              = Inr (replicate (min (length ts) (nat (l - c))) True
                       @ replicate (length ts - nat (l - c)) False, g')
           \<and> keys_agree g' \<and> limits g' = limits g
           \<and> map_of (counts g') n = Some (c + int (min (length ts) (nat (l - c))))
           \<and> map_of (call_history g') n = Some (h @ entries_from c (take (nat (l - c)) ts))"
  using assms
proof (induction ts arbitrary: g c h)
  case Nil
  then show ?case by simp
next
  case (Cons t ts)
  show ?case
  proof (cases "c \<ge> l")
    case True
    with Cons.prems have z: "nat (l - c) = 0" by simp
    have d: "agent_try_increment g n t = Inr (False, g)"
      using agent_try_increment_denied [OF Cons.prems(2,3) True] .
    from Cons.IH [OF Cons.prems] obtain g' where
      "agent_try_increment_calls n ts g
         = Inr (replicate (min (length ts) (nat (l - c))) True
                  @ replicate (length ts - nat (l - c)) False, g')"
      "keys_agree g'" "limits g' = limits g"
      "map_of (counts g') n = Some (c + int (min (length ts) (nat (l - c))))"
      "map_of (call_history g') n = Some (h @ entries_from c (take (nat (l - c)) ts))"
      by blast
    then show ?thesis using d z by simp
  next
    case False
    then have lt: "c < l" by simp
    let ?g = "g\<lparr>counts := AList.update n (c + 1) (counts g),
                 call_history := AList.update n (h @ [\<lparr>call_number = c + 1, timestamp = t\<rparr>])
                                   (call_history g)\<rparr>"
    have a: "agent_try_increment g n t = Inr (True, ?g)"
      using agent_try_increment_admitted [OF Cons.prems(2,3) lt Cons.prems(5)] .
    have k: "keys_agree ?g"
      using Cons.prems(1)
      by (simp add: keys_agree_def update_same_keys [OF Cons.prems(3)]
          update_same_keys [OF Cons.prems(5)])
    have l1: "map_of (limits ?g) n = Some l" using Cons.prems(2) by simp
    have c1: "map_of (counts ?g) n = Some (c + 1)" by (simp add: update_conv')
    have h1: "map_of (call_history ?g) n = Some (h @ [\<lparr>call_number = c + 1, timestamp = t\<rparr>])"
      by (simp add: update_conv')
    have le: "c + 1 \<le> l" using lt by simp
    have s: "nat (l - c) = Suc (nat (l - (c + 1)))" using lt by simp
    from Cons.IH [OF k l1 c1 le h1] obtain g' where
      "agent_try_increment_calls n ts ?g
         = Inr (replicate (min (length ts) (nat (l - (c + 1)))) True
                  @ replicate (length ts - nat (l - (c + 1))) False, g')"
      "keys_agree g'" "limits g' = limits ?g"
      "map_of (counts g') n = Some (c + 1 + int (min (length ts) (nat (l - (c + 1)))))"
      "map_of (call_history g') n
         = Some ((h @ [\<lparr>call_number = c + 1, timestamp = t\<rparr>])
                   @ entries_from (c + 1) (take (nat (l - (c + 1))) ts))"
      by blast
    then show ?thesis using a by (simp add: s)
  qed
qed





section \<open>Execution Context and worker templates\<close>

text \<open>
  The steps of a memory (\<^verbatim>\<open>smolagents.memory\<close>, and \<^verbatim>\<open>SummaryStep\<close> of
  tools/context_summary_toolcalling_agent.py). Of a \<^verbatim>\<open>PlanningStep\<close> and an \<^verbatim>\<open>ActionStep\<close>
  the model keeps the fields the code below reads; \<open>OtherStep\<close> is any further kind of
  step of the host framework.
\<close>

record token_usage =
  input_tokens :: int
  output_tokens :: int

datatype memory_step =
    TaskStep string
  | PlanningStep string "token_usage option"
  | ActionStep int "token_usage option"
  | SummaryStep string string int int
  | OtherStep

record AgentMemory =
  system_prompt :: string
  steps :: "memory_step list"

text \<open>
  Objects that are shared or replaced are held by reference. A store maps addresses to
  memory objects; \<open>next_free\<close> is the first address never handed out, so allocation
  returns an object that no existing reference points to. The model, the prompt
  templates, the logger and each tool are objects of the host framework, known here by
  their identity only. Of the attributes of a worker the record keeps those named in the
  claims about the copy, and the name, the description and the logger; the remaining
  settings are copied by \<^verbatim>\<open>_create_agent_copy_for_call\<close> in the same way.
\<close>

record memory_store =
  cells :: "nat \<Rightarrow> AgentMemory"
  next_free :: nat

record agent =
  tools :: "nat list"
  model :: nat
  prompt_templates :: nat
  max_steps :: int
  planning_interval :: "int option"
  name :: string
  description :: string
  logger :: nat
  agent_system_prompt :: string
  memory :: nat
  step_number :: int
  state :: "(string \<times> string) list"

text \<open>
  The host framework (\<^verbatim>\<open>smolagents\<close>) is not part of the repository. What the code relies
  on is taken as parameters: whether the constructor \<^verbatim>\<open>type(original_agent)(**init_kwargs)\<close>
  raises, what a call of a managed agent returns and does to that agent's own memory, and
  what a call of a plain tool returns.
\<close>

record host =
  constructor_error :: "agent \<Rightarrow> py_exn option"
  call_managed_agent :: "agent \<Rightarrow> string \<Rightarrow> AgentMemory \<Rightarrow> (py_exn + string) \<times> AgentMemory"
  call_tool :: "string \<Rightarrow> string \<Rightarrow> py_exn + string"

text \<open>\<^verbatim>\<open>AgentMemory(system_prompt)\<close>: a new memory object with an empty step list.\<close>

definition new_memory :: "string \<Rightarrow> memory_store \<Rightarrow> nat \<times> memory_store" where
  "new_memory sp st =
     (next_free st,
      \<lparr>cells = (cells st)(next_free st := \<lparr>system_prompt = sp, steps = []\<rparr>),
       next_free = Suc (next_free st)\<rparr>)"

text \<open>
  \<^verbatim>\<open>
  def _create_agent_copy_for_call(self, original_agent):
      init_kwargs = {
          'tools': list(original_agent.tools.values()),
          'model': original_agent.model,
          'prompt_templates': original_agent.prompt_templates,
          'max_steps': original_agent.max_steps,
          'planning_interval': original_agent.planning_interval,
          'name': original_agent.name,
          'description': original_agent.description,
          ...
          'logger': original_agent.logger, ...
      }
      ...
      agent_copy = type(original_agent)(**init_kwargs)
      agent_copy.memory = AgentMemory(original_agent.system_prompt)
      agent_copy.step_number = 0
      agent_copy.state = {}
      ...
      return agent_copy
  \<close>
\<close>

definition create_agent_copy_for_call ::
  "host \<Rightarrow> agent \<Rightarrow> memory_store \<Rightarrow> py_exn + (agent \<times> memory_store)" where
  "create_agent_copy_for_call h original_agent st =
     (case constructor_error h original_agent of
        Some e \<Rightarrow> Inl e
      | None \<Rightarrow>
          (let (m, st') = new_memory (agent_system_prompt original_agent) st
           in Inr (\<lparr>tools = tools original_agent,
                    model = model original_agent,
                    prompt_templates = prompt_templates original_agent,
                    max_steps = max_steps original_agent,
                    planning_interval = planning_interval original_agent,
                    name = name original_agent,
                    description = description original_agent,
                    logger = logger original_agent,
                    agent_system_prompt = agent_system_prompt original_agent,
                    memory = m,
                    step_number = 0,
                    state = []\<rparr>, st')))"

text \<open>
  The coordinating worker: the dictionary \<^verbatim>\<open>self.managed_agents\<close>, the attribute
  \<^verbatim>\<open>self.managed_agent_counter\<close> (absent or \<^verbatim>\<open>None\<close> is \<open>None\<close>) and the store.
\<close>

record coordinator =
  managed_agents :: "(string \<times> agent) list"
  managed_agent_counter :: "GlobalManagedAgentCounter option"
  store :: memory_store

text \<open>
  \<^verbatim>\<open>super().execute_tool_call(tool_name, arguments)\<close> of the host framework looks the name
  up among the tools and the managed agents and calls what is bound there. A managed agent
  runs on the memory object it refers to.
\<close>

definition super_execute_tool_call ::
  "host \<Rightarrow> coordinator \<Rightarrow> string \<Rightarrow> string \<Rightarrow> (py_exn + string) \<times> coordinator" where
  "super_execute_tool_call h cs tool_name arguments =
     (case map_of (managed_agents cs) tool_name of
        None \<Rightarrow> (call_tool h tool_name arguments, cs)
      | Some a \<Rightarrow>
          (let (r, m') = call_managed_agent h a arguments (cells (store cs) (memory a))
           in (r, cs\<lparr>store := (store cs)\<lparr>cells := (cells (store cs))(memory a := m')\<rparr>\<rparr>)))"

text \<open>The message returned to the coordinator when the call limit of a worker is reached.\<close>

definition sq :: string where
  "sq = [CHR 0x27]"

definition status_line :: "string \<Rightarrow> agent_status \<Rightarrow> string" where
  "status_line agent_name st =
     ''  - '' @ agent_name @ '': '' @ str_int (status_count st) @ ''/'' @ str_int (status_limit st)
       @ '' calls used, '' @ str_int (status_remaining st) @ '' remaining''"

definition finish_directive :: string where
  "finish_directive =
     ''IMPORTANT: You must now complete the task using:'' @ nl
     @ ''1. The information you have already collected'' @ nl
     @ ''2. Your own reasoning and analysis capabilities'' @ nl
     @ ''3. Any available tools (search, visit_webpage, database operations)'' @ nl @ nl
     @ ''Please proceed to synthesize the information and provide a final answer.''"

definition limit_reached_head :: "py_limit \<Rightarrow> string \<Rightarrow> string" where
  "limit_reached_head lim tool_name =
     ''Error: Managed agent '' @ sq @ tool_name @ sq @ '' call limit reached.'' @ nl
     @ ''You have used all '' @ str_limit lim @ '' allowed calls to ''
     @ sq @ tool_name @ sq @ ''.'' @ nl @ nl
     @ ''Current managed agent call status:'' @ nl"

definition availability_text :: "string list \<Rightarrow> string" where
  "availability_text available_agents =
     (if available_agents \<noteq> [] then
        ''You can still call these managed agents: '' @ join '', '' available_agents @ nl
        @ ''Please use them to gather additional information if needed.'' @ nl @ nl
      else
        ''All managed agents have reached their call limits.'' @ nl
        @ ''You can no longer delegate tasks to sub-agents.'' @ nl @ nl)"

definition limit_reached_message :: "GlobalManagedAgentCounter \<Rightarrow> string \<Rightarrow> py_exn + string" where
  "limit_reached_message g tool_name =
     (let lim = agent_get_limit g tool_name in
      case agent_get_remaining g tool_name of
        Inl e \<Rightarrow> Inl e
      | Inr remaining \<Rightarrow>
          (case get_all_status g of
             Inl e \<Rightarrow> Inl e
           | Inr all_status \<Rightarrow>
               (let status_lines = map (\<lambda>(a_name, st). status_line a_name st) all_status;
                    available_agents =
                      map fst (filter (\<lambda>(a_name, st). status_remaining st > 0) all_status);
                    status_msg = join nl status_lines
                in Inr
                  (limit_reached_head lim tool_name @ status_msg @ nl @ nl
                   @ availability_text available_agents
                   @ finish_directive))))"

text \<open>
  \<^verbatim>\<open>
  def execute_tool_call(self, tool_name, arguments):
      if tool_name in self.managed_agents:
          if hasattr(self, 'managed_agent_counter') and self.managed_agent_counter is not None:
              if not self.managed_agent_counter.try_increment(tool_name):
                  ...
                  return error_msg
          original_agent = self.managed_agents[tool_name]
          agent_copy = self._create_agent_copy_for_call(original_agent)
          original_ref = self.managed_agents[tool_name]
          self.managed_agents[tool_name] = agent_copy
          try:
              return super().execute_tool_call(tool_name, arguments)
          finally:
              self.managed_agents[tool_name] = original_ref
      return super().execute_tool_call(tool_name, arguments)
  \<close>
  The result is the value returned (\<open>Inr\<close>) or the exception that leaves the method
  (\<open>Inl\<close>), with the state of the coordinator afterwards. The definitions
  \<open>dispatch_managed_agent\<close> and \<open>execute_tool_call\<close> are the method as one call executes
  it from beginning to end with no other call of the same coordinator in between. The
  method takes no lock for the dispatch; its statements one by one, for calls that run
  in parallel threads, are \<open>call_step\<close> further below.
\<close>

definition dispatch_managed_agent ::
  "host \<Rightarrow> coordinator \<Rightarrow> string \<Rightarrow> string \<Rightarrow> agent \<Rightarrow> (py_exn + string) \<times> coordinator" where
  "dispatch_managed_agent h cs tool_name arguments original_agent =
     (case create_agent_copy_for_call h original_agent (store cs) of
        Inl e \<Rightarrow> (Inl e, cs)
      | Inr (agent_copy, st') \<Rightarrow>
          (let original_ref = original_agent;
               cs1 = cs\<lparr>store := st',
                        managed_agents := AList.update tool_name agent_copy (managed_agents cs)\<rparr>;
               (r, cs2) = super_execute_tool_call h cs1 tool_name arguments
           in (r, cs2\<lparr>managed_agents :=
                        AList.update tool_name original_ref (managed_agents cs2)\<rparr>)))"

definition execute_tool_call ::
  "host \<Rightarrow> coordinator \<Rightarrow> string \<Rightarrow> string \<Rightarrow> string \<Rightarrow> (py_exn + string) \<times> coordinator" where
  "execute_tool_call h cs tool_name arguments now =
     (case map_of (managed_agents cs) tool_name of
        None \<Rightarrow> super_execute_tool_call h cs tool_name arguments
      | Some original_agent \<Rightarrow>
          (case managed_agent_counter cs of
             None \<Rightarrow> dispatch_managed_agent h cs tool_name arguments original_agent
           | Some g \<Rightarrow>
               (case agent_try_increment g tool_name now of
                  Inl e \<Rightarrow> (Inl e, cs)
                | Inr (admitted, g') \<Rightarrow>
                    if \<not> admitted then
                      (case limit_reached_message g' tool_name of
                         Inl e \<Rightarrow> (Inl e, cs\<lparr>managed_agent_counter := Some g'\<rparr>)
                       | Inr error_msg \<Rightarrow> (Inr error_msg, cs\<lparr>managed_agent_counter := Some g'\<rparr>))
                    else
                      dispatch_managed_agent h (cs\<lparr>managed_agent_counter := Some g'\<rparr>)
                        tool_name arguments original_agent)))"

subsection \<open>The message on a reached call limit\<close>






subsection \<open>A call that runs alone\<close>

lemma update_restore:
  "map_of al k = Some v \<Longrightarrow> AList.update k v (AList.update k w al) = al"
  by (induction al) (auto split: if_splits)

lemma create_agent_copy_for_call_fresh:
  assumes "constructor_error h t = None"
  shows "create_agent_copy_for_call h t st =
           Inr (\<lparr>tools = tools t, model = model t, prompt_templates = prompt_templates t,
                  max_steps = max_steps t, planning_interval = planning_interval t,
                  name = name t, description = description t, logger = logger t,
                  agent_system_prompt = agent_system_prompt t,
                  memory = next_free st, step_number = 0, state = []\<rparr>,
                \<lparr>cells = (cells st)(next_free st := \<lparr>system_prompt = agent_system_prompt t, steps = []\<rparr>),
                 next_free = Suc (next_free st)\<rparr>)"
  using assms by (simp add: create_agent_copy_for_call_def new_memory_def)

lemma dispatch_managed_agent_isolated:
  assumes t: "map_of (managed_agents cs) tool_name = Some t"
    and ok: "constructor_error h t = None"
    and wf: "memory t < next_free (store cs)"
    and cp: "create_agent_copy_for_call h t (store cs) = Inr (agent_copy, st')"
    and run: "call_managed_agent h agent_copy arguments (cells st' (memory agent_copy)) = (r, m')"
  shows "dispatch_managed_agent h cs tool_name arguments t
           = (r, cs\<lparr>store := st'\<lparr>cells := (cells st')(memory agent_copy := m')\<rparr>\<rparr>)"
proof -
  let ?cs1 = "cs\<lparr>store := st',
                  managed_agents := AList.update tool_name agent_copy (managed_agents cs)\<rparr>"
  have b: "map_of (managed_agents ?cs1) tool_name = Some agent_copy"
    by (simp add: update_conv')
  have s: "super_execute_tool_call h ?cs1 tool_name arguments
             = (r, ?cs1\<lparr>store := st'\<lparr>cells := (cells st')(memory agent_copy := m')\<rparr>\<rparr>)"
    using run by (simp add: super_execute_tool_call_def update_conv')
  show ?thesis
    using update_restore [OF t, of agent_copy]
    by (simp add: dispatch_managed_agent_def cp s)
qed

text \<open>
  A call that is dispatched while no other call of the coordinator is in progress: a
  copy is built whose memory is a newly allocated object, distinct from the memory of the
  template and holding no steps, whose step counter is 0 and whose state is empty, and
  whose model, tools, prompt templates and step limits are those of the template. The call
  runs on that copy and its memory; the memory of the template is not changed; and
  afterwards, whether the call returned or raised, the dictionary of managed agents is
  what it was before the call.
\<close>

lemma execute_tool_call_alone:
  assumes "map_of (managed_agents cs) tool_name = Some t"
    and "managed_agent_counter cs = None
         \<or> (\<exists>g g'. managed_agent_counter cs = Some g
                \<and> agent_try_increment g tool_name now = Inr (True, g'))"
    and "constructor_error h t = None"
    and "memory t < next_free (store cs)"
  shows "\<exists>agent_copy st' r m'.
           create_agent_copy_for_call h t (store cs) = Inr (agent_copy, st')
         \<and> \<not> memory agent_copy < next_free (store cs)
         \<and> memory agent_copy \<noteq> memory t
         \<and> cells st' (memory agent_copy) = \<lparr>system_prompt = agent_system_prompt t, steps = []\<rparr>
         \<and> step_number agent_copy = 0 \<and> state agent_copy = []
         \<and> model agent_copy = model t \<and> tools agent_copy = tools t
         \<and> prompt_templates agent_copy = prompt_templates t
         \<and> max_steps agent_copy = max_steps t
         \<and> planning_interval agent_copy = planning_interval t
         \<and> call_managed_agent h agent_copy arguments (cells st' (memory agent_copy)) = (r, m')
         \<and> fst (execute_tool_call h cs tool_name arguments now) = r
         \<and> cells (store (snd (execute_tool_call h cs tool_name arguments now))) (memory agent_copy) = m'
         \<and> cells (store (snd (execute_tool_call h cs tool_name arguments now))) (memory t)
             = cells (store cs) (memory t)
         \<and> managed_agents (snd (execute_tool_call h cs tool_name arguments now)) = managed_agents cs
         \<and> map_of (managed_agents (snd (execute_tool_call h cs tool_name arguments now))) tool_name
             = Some t"
proof -
  let ?copy = "\<lparr>tools = tools t, model = model t, prompt_templates = prompt_templates t,
                  max_steps = max_steps t, planning_interval = planning_interval t,
                  name = name t, description = description t, logger = logger t,
                  agent_system_prompt = agent_system_prompt t,
                  memory = next_free (store cs), step_number = 0, state = []\<rparr>"
  let ?st = "\<lparr>cells = (cells (store cs))(next_free (store cs) :=
                     \<lparr>system_prompt = agent_system_prompt t, steps = []\<rparr>),
              next_free = Suc (next_free (store cs))\<rparr>"
  have cp: "create_agent_copy_for_call h t (store cs) = Inr (?copy, ?st)"
    using create_agent_copy_for_call_fresh [OF assms(3)] .
  obtain r m' where run: "call_managed_agent h ?copy arguments (cells ?st (memory ?copy)) = (r, m')"
    by (cases "call_managed_agent h ?copy arguments (cells ?st (memory ?copy))")
  let ?out = "\<lambda>c. (r, c\<lparr>store := ?st\<lparr>cells := (cells ?st)(memory ?copy := m')\<rparr>\<rparr>)"
  have d: "\<And>c. map_of (managed_agents c) tool_name = Some t \<Longrightarrow> store c = store cs \<Longrightarrow>
             dispatch_managed_agent h c tool_name arguments t = ?out c"
  proof -
    fix c :: coordinator
    assume a: "map_of (managed_agents c) tool_name = Some t" and b: "store c = store cs"
    have w: "memory t < next_free (store c)" using assms(4) b by simp
    have cp': "create_agent_copy_for_call h t (store c) = Inr (?copy, ?st)" using cp b by simp
    show "dispatch_managed_agent h c tool_name arguments t = ?out c"
      using dispatch_managed_agent_isolated [OF a assms(3) w cp' run] .
  qed
  have e: "\<exists>c. map_of (managed_agents c) tool_name = Some t \<and> store c = store cs
              \<and> managed_agents c = managed_agents cs
              \<and> execute_tool_call h cs tool_name arguments now = ?out c"
  proof (cases "managed_agent_counter cs")
    case None
    then have "execute_tool_call h cs tool_name arguments now = ?out cs"
      using d [OF assms(1)] assms(1) by (simp add: execute_tool_call_def)
    then show ?thesis using assms(1) by blast
  next
    case (Some g)
    with assms(2) obtain g' where g': "agent_try_increment g tool_name now = Inr (True, g')"
      by auto
    let ?c = "cs\<lparr>managed_agent_counter := Some g'\<rparr>"
    have "execute_tool_call h cs tool_name arguments now
            = dispatch_managed_agent h ?c tool_name arguments t"
      using assms(1) Some g' by (simp add: execute_tool_call_def)
    also have "\<dots> = ?out ?c" using d [of ?c] assms(1) by simp
    finally show ?thesis using assms(1) by (intro exI [of _ ?c]) simp
  qed
  then obtain c where c: "map_of (managed_agents c) tool_name = Some t" "store c = store cs"
    "managed_agents c = managed_agents cs"
    "execute_tool_call h cs tool_name arguments now = ?out c" by blast
  have ne: "next_free (store cs) \<noteq> memory t" using assms(4) by simp
  show ?thesis
    apply (rule exI [of _ ?copy], rule exI [of _ ?st], rule exI [of _ r], rule exI [of _ m'])
    using cp run c ne assms(1,4) by simp
qed

subsection \<open>Calls that run in parallel\<close>

text \<open>
  The host framework executes the tool calls of one step of the coordinator in a pool of
  \<^verbatim>\<open>max_tool_threads\<close> threads, each of which calls \<^verbatim>\<open>execute_tool_call\<close> of the same
  coordinator. The statements of the dispatch hold no lock:
  \<^verbatim>\<open>
  original_agent = self.managed_agents[tool_name]
  agent_copy = self._create_agent_copy_for_call(original_agent)
  # ... (Python dictionary operations are atomic)
  original_ref = self.managed_agents[tool_name]
  self.managed_agents[tool_name] = agent_copy
  try:
      return super().execute_tool_call(tool_name, arguments)
  finally:
      self.managed_agents[tool_name] = original_ref
  \<close>
  so another thread may run between any two of them. A call in progress is at one of
  the following points, with the values of its local variables; \<open>call_step\<close> executes
  the next statement of a call on the shared coordinator. The lookup and the run inside
  \<^verbatim>\<open>super().execute_tool_call\<close> are one step.
\<close>

datatype call_point =
    Entry
  | HasOriginal agent
  | HasCopy agent
  | HasRef agent agent
  | Swapped agent agent
  | Ran agent agent "py_exn + string"
  | Done "py_exn + string"

definition call_step ::
  "host \<Rightarrow> string \<Rightarrow> string \<Rightarrow> call_point \<Rightarrow> coordinator \<Rightarrow> call_point \<times> coordinator" where
  "call_step h tool_name arguments pt cs =
     (case pt of
        Entry \<Rightarrow>
          (case map_of (managed_agents cs) tool_name of
             None \<Rightarrow> (Done (Inl (KeyError tool_name)), cs)
           | Some original_agent \<Rightarrow> (HasOriginal original_agent, cs))
      | HasOriginal original_agent \<Rightarrow>
          (case create_agent_copy_for_call h original_agent (store cs) of
             Inl e \<Rightarrow> (Done (Inl e), cs)
           | Inr (agent_copy, st') \<Rightarrow> (HasCopy agent_copy, cs\<lparr>store := st'\<rparr>))
      | HasCopy agent_copy \<Rightarrow>
          (case map_of (managed_agents cs) tool_name of
             None \<Rightarrow> (Done (Inl (KeyError tool_name)), cs)
           | Some original_ref \<Rightarrow> (HasRef agent_copy original_ref, cs))
      | HasRef agent_copy original_ref \<Rightarrow>
          (Swapped agent_copy original_ref,
           cs\<lparr>managed_agents := AList.update tool_name agent_copy (managed_agents cs)\<rparr>)
      | Swapped agent_copy original_ref \<Rightarrow>
          (let (r, cs') = super_execute_tool_call h cs tool_name arguments
           in (Ran agent_copy original_ref r, cs'))
      | Ran agent_copy original_ref r \<Rightarrow>
          (Done r, cs\<lparr>managed_agents := AList.update tool_name original_ref (managed_agents cs)\<rparr>)
      | Done r \<Rightarrow> (Done r, cs))"

text \<open>
  Two calls of the same worker, with their own arguments, on one coordinator. A schedule
  says whose statement comes next: \<open>False\<close> for the first call, \<open>True\<close> for the second.
\<close>

definition thread_step ::
  "host \<Rightarrow> string \<Rightarrow> string \<Rightarrow> string \<Rightarrow> call_point \<times> call_point \<times> coordinator \<Rightarrow> bool
     \<Rightarrow> call_point \<times> call_point \<times> coordinator" where
  "thread_step h tool_name arguments_a arguments_b s second =
     (case s of (pa, pb, cs) \<Rightarrow>
        if second
        then (let (pb', cs') = call_step h tool_name arguments_b pb cs in (pa, pb', cs'))
        else (let (pa', cs') = call_step h tool_name arguments_a pa cs in (pa', pb, cs')))"

definition run_threads ::
  "host \<Rightarrow> string \<Rightarrow> string \<Rightarrow> string \<Rightarrow> bool list \<Rightarrow> coordinator
     \<Rightarrow> call_point \<times> call_point \<times> coordinator" where
  "run_threads h tool_name arguments_a arguments_b schedule cs =
     foldl (thread_step h tool_name arguments_a arguments_b) (Entry, Entry, cs) schedule"

text \<open>
  The six statements of one call with no statement of another call in between are the
  dispatch defined above.
\<close>

lemma call_steps_alone:
  assumes "map_of (managed_agents cs) tool_name = Some t"
  shows "run_threads h tool_name arguments arguments_b (replicate 6 False) cs
           = (Done (fst (dispatch_managed_agent h cs tool_name arguments t)), Entry,
              snd (dispatch_managed_agent h cs tool_name arguments t))"
proof (cases "create_agent_copy_for_call h t (store cs)")
  case (Inl e)
  then show ?thesis
    using assms
    by (simp add: run_threads_def thread_step_def call_step_def dispatch_managed_agent_def
        eval_nat_numeral)
next
  case (Inr p)
  obtain agent_copy st' where p: "p = (agent_copy, st')" by (cases p)
  obtain r cs2 where s: "super_execute_tool_call h
      (cs\<lparr>store := st', managed_agents := AList.update tool_name agent_copy (managed_agents cs)\<rparr>)
      tool_name arguments = (r, cs2)"
    by (cases "super_execute_tool_call h
      (cs\<lparr>store := st', managed_agents := AList.update tool_name agent_copy (managed_agents cs)\<rparr>)
      tool_name arguments")
  show ?thesis
    using assms Inr p s
    by (simp add: run_threads_def thread_step_def call_step_def dispatch_managed_agent_def
        eval_nat_numeral)
qed

text \<open>
  C2. Every dispatch is to run on its own copy, never on the live memory of the template,
  and the binding of the name is to be what it was once the call has returned; the source
  says so itself (the copy is made for parallel calls so that each call has a state of its
  own, and the temporary replacement is said not to affect other parallel calls because
  dictionary operations are atomic). Two calls of \<^verbatim>\<open>tabular_search_agent\<close> that run in
  parallel show otherwise. The template has the memory at address 0; a run appends the
  task it was given to the memory it runs on.

  In the first schedule the first call replaces the binding by its copy (memory 1), the
  second call then takes that copy for the original, makes its own copy of it (memory 2)
  and binds it; both calls run on memory 2, the copy of the first call is never used, and
  at the end the name is bound to the copy of the first call instead of the template.

  In the second schedule both calls read the template before either replaces the
  binding; the second call runs and restores the template while the first has not yet
  run, so the first call runs on the memory of the template.
\<close>

theorem C2_parallel_dispatch_shares_memory:
  "(let t = \<lparr>tools = [1, 2], model = 7, prompt_templates = 8, max_steps = 40,
             planning_interval = None, name = ''tabular_search_agent'', description = ''d'',
             logger = 9, agent_system_prompt = ''sp'', memory = 0, step_number = 3,
             state = [(''k'', ''v'')]\<rparr>;
        cs = \<lparr>managed_agents = [(''tabular_search_agent'', t)],
              managed_agent_counter = None,
              store = \<lparr>cells = (\<lambda>_. \<lparr>system_prompt = ''sp'', steps = []\<rparr>), next_free = 1\<rparr>\<rparr>;
        h = \<lparr>constructor_error = (\<lambda>_. None),
             call_managed_agent =
               (\<lambda>a arguments m. (Inr arguments, m\<lparr>steps := steps m @ [TaskStep arguments]\<rparr>)),
             call_tool = (\<lambda>_ _. Inr ''x'')\<rparr>;
        one = run_threads h ''tabular_search_agent'' ''task A'' ''task B''
                [False, False, False, False, True, True, True, True, False, True, False, True] cs;
        two = run_threads h ''tabular_search_agent'' ''task A'' ''task B''
                [False, False, False, True, True, True, False, True, True, True, False, False] cs
    in fst one = Done (Inr ''task A'') \<and> fst (snd one) = Done (Inr ''task B'')
       \<and> steps (cells (store (snd (snd one))) 2) = [TaskStep ''task A'', TaskStep ''task B'']
       \<and> steps (cells (store (snd (snd one))) 1) = []
       \<and> map_of (managed_agents (snd (snd one))) ''tabular_search_agent''
           = Some (t\<lparr>memory := 1, step_number := 0, state := []\<rparr>)
       \<and> fst two = Done (Inr ''task A'') \<and> fst (snd two) = Done (Inr ''task B'')
       \<and> steps (cells (store (snd (snd two))) 0) = [TaskStep ''task A'']
       \<and> steps (cells (store (snd (snd two))) 1) = []
       \<and> steps (cells (store (snd (snd two))) 2) = [TaskStep ''task B'']
       \<and> map_of (managed_agents (snd (snd two))) ''tabular_search_agent'' = Some t)"
  by (simp add: run_threads_def thread_step_def call_step_def create_agent_copy_for_call_def
      new_memory_def super_execute_tool_call_def Let_def)

subsection \<open>The call budget and the answer to a denied delegation\<close>






section \<open>What a governor records about its calls\<close>

lemma try_increment_times_count:
  "count (snd (try_increment_times m c)) = count c + int (count_true (fst (try_increment_times m c)))"
proof (induction m arbitrary: c)
  case 0
  then show ?case by (simp add: count_true_def)
next
  case (Suc m)
  show ?case
    using Suc.IH [of "snd (try_increment c)"]
    by (simp add: try_increment_times_Suc count_true_def try_increment_def
        del: try_increment_times.simps)
qed

lemma count_true_replicate:
  "count_true (replicate a True @ replicate b False) = a"
  by (simp add: count_true_def)

text \<open>
  C9 as stated: a Resource Governor keeps a history of \<open>{sequence_number, timestamp}\<close>
  entries to which every successful \<^verbatim>\<open>try_increment\<close> appends the entry of that call. The
  classes \<^verbatim>\<open>GlobalSearchCounter\<close>, \<^verbatim>\<open>GlobalVisitCounter\<close> and \<^verbatim>\<open>GlobalCreateTableCounter\<close>
  have the attributes \<^verbatim>\<open>limit\<close> and \<^verbatim>\<open>count\<close> only, and \<^verbatim>\<open>try_increment\<close> reads no clock: the
  state after a successful call is the same whenever the call is made, so nothing that
  can be read off the governor gives the time of the call.
\<close>

theorem C9_history_counterexample:
  "\<not> (\<exists>history :: GlobalSearchCounter \<Rightarrow> (int \<times> string) list.
        \<forall>now. fst (try_increment \<lparr>limit = 1, count = 0\<rparr>)
            \<and> history (snd (try_increment \<lparr>limit = 1, count = 0\<rparr>))
                = history \<lparr>limit = 1, count = 0\<rparr> @ [(1, now)])"
proof
  assume "\<exists>history :: GlobalSearchCounter \<Rightarrow> (int \<times> string) list.
        \<forall>now. fst (try_increment \<lparr>limit = 1, count = 0\<rparr>)
            \<and> history (snd (try_increment \<lparr>limit = 1, count = 0\<rparr>))
                = history \<lparr>limit = 1, count = 0\<rparr> @ [(1, now)]"
  then obtain history :: "GlobalSearchCounter \<Rightarrow> (int \<times> string) list" where
    h: "\<And>now. history (snd (try_increment \<lparr>limit = 1, count = 0\<rparr>))
                = history \<lparr>limit = 1, count = 0\<rparr> @ [(1, now)]"
    by blast
  from h [of "''a''"] h [of "''b''"]
  have "history \<lparr>limit = 1, count = 0\<rparr> @ [(1, ''a'')]
          = history \<lparr>limit = 1, count = 0\<rparr> @ [(1, ''b'')]" by simp
  then show False by simp
qed

text \<open>
  C9 as amended. The state of a Resource Governor is its limit and its count, and
  the count grows by exactly the number of successful \<^verbatim>\<open>try_increment\<close> calls. A history
  of calls is kept by the Call Governor only, per worker name with a limit: on a fresh
  Call Governor in which worker \<open>n\<close> has a limit, after consecutive calls for \<open>n\<close> at the
  clock readings \<open>ts\<close> the history of \<open>n\<close> has one entry per successful call, with call
  numbers 1, 2, ... in order and the clock readings of the successful calls.
\<close>

theorem C9_call_history:
  assumes "map_of lims n = Some (int k)"
  shows "c = \<lparr>limit = limit c, count = count c\<rparr>
    \<and> count (snd (try_increment_times m c))
        = count c + int (count_true (fst (try_increment_times m c)))
    \<and> (\<exists>bs g' hist.
          agent_try_increment_calls n ts (init_managed_agent_counter (Some lims)) = Inr (bs, g')
        \<and> map_of (call_history g') n = Some hist
        \<and> length hist = count_true bs
        \<and> map call_number hist = [1 .. int (count_true bs)]
        \<and> map timestamp hist = take (count_true bs) ts)"
proof -
  let ?g0 = "init_managed_agent_counter (Some lims)"
  have k0: "keys_agree ?g0" by (rule init_keys_agree)
  have l0: "map_of (limits ?g0) n = Some (int k)" using assms by (simp add: init_limits)
  from assms have inl: "n \<in> fst ` set lims" by (metis map_of_eq_None_iff option.distinct(1))
  have c0: "map_of (counts ?g0) n = Some 0" using inl by (simp add: init_counts)
  have h0: "map_of (call_history ?g0) n = Some []" using inl by (simp add: init_call_history)
  have le: "(0::int) \<le> int k" by simp
  let ?bs = "replicate (min (length ts) k) True @ replicate (length ts - k) False"
  let ?hist = "entries_from 0 (take k ts)"
  from agent_try_increment_calls_one_name [OF k0 l0 c0 le h0, of ts] obtain g' where
    g': "agent_try_increment_calls n ts ?g0 = Inr (?bs, g')"
        "map_of (call_history g') n = Some ?hist"
    by auto
  have ct: "count_true ?bs = min (length ts) k" by (rule count_true_replicate)
  have a: "length ?hist = count_true ?bs" by (simp add: ct length_entries_from)
  have b: "map call_number ?hist = [1 .. int (count_true ?bs)]"
    by (simp only: call_numbers_entries_from ct) simp
  have "take k ts = take (min (length ts) k) ts"
    by (cases "length ts \<le> k") (simp_all add: min_def)
  then have t: "map timestamp ?hist = take (count_true ?bs) ts"
    by (simp only: timestamps_entries_from ct)
  have r: "c = \<lparr>limit = limit c, count = count c\<rparr>" by simp
  from g' a b t have "\<exists>bs g' hist.
          agent_try_increment_calls n ts ?g0 = Inr (bs, g')
        \<and> map_of (call_history g') n = Some hist
        \<and> length hist = count_true bs
        \<and> map call_number hist = [1 .. int (count_true bs)]
        \<and> map timestamp hist = take (count_true bs) ts" by blast
  with r try_increment_times_count [of m c] show ?thesis by blast
qed

theorem C9_call_history_witness:
  "map_of [(''A'', 2)] ''A'' = Some (int 2)
   \<and> count (snd (try_increment_times 3 (init_counter 2))) = 2
   \<and> (\<exists>g'. agent_try_increment_calls ''A'' [''t1'', ''t2'', ''t3'']
              (init_managed_agent_counter (Some [(''A'', 2)])) = Inr ([True, True, False], g')
          \<and> map_of (call_history g') ''A''
              = Some [\<lparr>call_number = 1, timestamp = ''t1''\<rparr>, \<lparr>call_number = 2, timestamp = ''t2''\<rparr>])"
proof -
  have h1: "map_of [(''A'', 2)] ''A'' = Some (int 2)" by simp
  have e: "agent_try_increment_calls ''A'' [''t1'', ''t2'', ''t3'']
              (init_managed_agent_counter (Some [(''A'', 2)]))
         = Inr ([True, True, False],
                \<lparr>limits = [(''A'', 2)], counts = [(''A'', 2)],
                 call_history = [(''A'', [\<lparr>call_number = 1, timestamp = ''t1''\<rparr>,
                                          \<lparr>call_number = 2, timestamp = ''t2''\<rparr>])]\<rparr>)"
    by (simp add: init_managed_agent_counter_def agent_try_increment_def)
  have ct: "count_true (fst (try_increment_times 3 \<lparr>limit = 2, count = 0\<rparr>)) = 2"
    by (simp add: numeral_3_eq_3 try_increment_def count_true_def)
  from C9_call_history [OF h1, of "init_counter 2" 3 "[''t1'', ''t2'', ''t3'']"]
  have "count (snd (try_increment_times 3 (init_counter 2)))
        = count (init_counter 2) + int (count_true (fst (try_increment_times 3 (init_counter 2))))"
    by blast
  then have "count (snd (try_increment_times 3 (init_counter 2))) = 2"
    by (simp add: ct init_counter_def)
  with h1 e show ?thesis by simp
qed

section \<open>Context Compactor\<close>

text \<open>
  \<^verbatim>\<open>ContextSummarizationMixin\<close> (tools/context_summary_toolcalling_agent.py). Of the worker
  the model keeps the attributes that the mixin reads and writes: the task text, the
  memory, the three settings and the two statistics. The template of the user prompt is
  the function of the task and the history that \<^verbatim>\<open>summary_user_template.format\<close> computes.
\<close>

record summarization_worker =
  task :: string
  worker_memory :: AgentMemory
  context_token_threshold :: int
  min_steps_before_summary :: int
  summary_max_retries :: int
  summary_user_template :: "string \<Rightarrow> string \<Rightarrow> string"
  summarization_count :: int
  total_tokens_saved :: int

text \<open>
  \<^verbatim>\<open>
  def _get_last_input_tokens(self) -> int:
      for step in reversed(self.memory.steps):
          if isinstance(step, (ActionStep, PlanningStep)):
              if step.token_usage is not None:
                  return step.token_usage.input_tokens
      return 0
  \<close>
\<close>

fun scan_input_tokens :: "memory_step list \<Rightarrow> int" where
  "scan_input_tokens [] = 0"
| "scan_input_tokens (ActionStep n (Some u) # rest) = input_tokens u"
| "scan_input_tokens (PlanningStep p (Some u) # rest) = input_tokens u"
| "scan_input_tokens (s # rest) = scan_input_tokens rest"

definition get_last_input_tokens :: "summarization_worker \<Rightarrow> int" where
  "get_last_input_tokens ag = scan_input_tokens (rev (steps (worker_memory ag)))"

text \<open>\<^verbatim>\<open>sum(1 for step in self.memory.steps if isinstance(step, ActionStep))\<close>\<close>

fun is_action_step :: "memory_step \<Rightarrow> bool" where
  "is_action_step (ActionStep n u) = True"
| "is_action_step s = False"

definition count_action_steps :: "summarization_worker \<Rightarrow> int" where
  "count_action_steps ag = int (length (filter is_action_step (steps (worker_memory ag))))"

text \<open>
  \<^verbatim>\<open>
  should_summarize = (
      last_input_tokens > self.context_token_threshold and
      action_step_count >= self.min_steps_before_summary
  )
  \<close>
\<close>

definition should_summarize :: "summarization_worker \<Rightarrow> bool" where
  "should_summarize ag =
     (let last_input_tokens = get_last_input_tokens ag;
          action_step_count = count_action_steps ag
      in last_input_tokens > context_token_threshold ag
         \<and> action_step_count \<ge> min_steps_before_summary ag)"

subsection \<open>The summarization call\<close>

text \<open>
  The summarization service is outside the program. \<open>request_api_detail env prompt a\<close> is
  what the call made at attempt \<open>a\<close> does: it raises, or it returns a response (or
  \<^verbatim>\<open>None\<close>) and a status code. Of a response the model keeps what the extraction below
  looks at. \<open>message_content\<close> is the text at \<^verbatim>\<open>response["choices"][0]["message"]["content"]\<close>;
  it is \<open>None\<close> when a key is missing or the list is empty (the content stays \<^verbatim>\<open>None\<close>)
  and when the lookup or \<^verbatim>\<open>.strip()\<close> raises because a value has another type (the
  extraction then returns \<^verbatim>\<open>(None, None)\<close> at once; both ways end in the same result). The
  entry \<^verbatim>\<open>usage\<close> is absent, a dictionary, or a value that is no dictionary (such as
  \<^verbatim>\<open>null\<close>), on which \<^verbatim>\<open>usage.get\<close> raises. \<open>api_available\<close> says that the import of
  \<^verbatim>\<open>request_api_detail\<close> succeeded. \<open>history_to_text\<close> stands for the transcript that
  \<^verbatim>\<open>_history_to_text\<close> renders from the steps. The calls of the two loggers write to the
  log only and are left out.
\<close>

datatype usage_field = UsageAbsent | UsageDict "(string \<times> int) list" | UsageNotDict

record api_response =
  message_content :: "string option"
  usage :: usage_field

datatype api_result = ApiRaises string | ApiReturns "api_response option" int

record summary_env =
  api_available :: bool
  request_api_detail :: "string \<Rightarrow> int \<Rightarrow> api_result"
  history_to_text :: "memory_step list \<Rightarrow> string"

text \<open>The truth value of an optional text: \<^verbatim>\<open>None\<close> and the empty text are false.\<close>

fun truthy_text :: "string option \<Rightarrow> bool" where
  "truthy_text None = False"
| "truthy_text (Some s) = (s \<noteq> [])"

text \<open>
  \<^verbatim>\<open>
  def _extract_api_response(self, response):
      try:
          content = None
          usage = None
          if "choices" in response and len(response["choices"]) > 0:
              choice = response["choices"][0]
              if "message" in choice and "content" in choice["message"]:
                  content = choice["message"]["content"].strip()
          if "usage" in response:
              usage = response["usage"]
              loguru_logger.debug(f"... prompt_tokens={usage.get('prompt_tokens', 'N/A')}, ...")
          if not content:
              return None, None
          return content, usage
      except Exception as e:
          return None, None
  \<close>
\<close>

definition extract_api_response ::
  "api_response \<Rightarrow> string option \<times> (string \<times> int) list option" where
  "extract_api_response response =
     (let content = (case message_content response of
                       None \<Rightarrow> None
                     | Some c \<Rightarrow> Some (strip c))
      in case usage response of
           UsageNotDict \<Rightarrow> (None, None)
         | UsageAbsent \<Rightarrow> if \<not> truthy_text content then (None, None) else (content, None)
         | UsageDict d \<Rightarrow> if \<not> truthy_text content then (None, None) else (content, Some d))"

text \<open>
  \<^verbatim>\<open>_call_summary_api_once\<close> returns the summary and the usage, or \<^verbatim>\<open>None\<close> for both when
  the call raised, the status code is not 200, there is no response, or no content could
  be extracted. (Its error text goes to the log only and is left out.)
\<close>

definition call_summary_api_once ::
  "summary_env \<Rightarrow> string \<Rightarrow> int \<Rightarrow> string option \<times> (string \<times> int) list option" where
  "call_summary_api_once env prompt attempt =
     (if \<not> api_available env then (None, None)
      else
        (case request_api_detail env prompt attempt of
           ApiRaises e \<Rightarrow> (None, None)
         | ApiReturns response status_code \<Rightarrow>
             (case response of
                None \<Rightarrow> (None, None)
              | Some resp \<Rightarrow>
                  if status_code \<noteq> 200 then (None, None)
                  else
                    (let r = extract_api_response resp
                     in if \<not> truthy_text (fst r) then (None, None) else r))))"

text \<open>
  \<^verbatim>\<open>
  def _call_summary_api_with_retry(self, prompt):
      for attempt in range(1, self.summary_max_retries + 1):
          summary_text, error_msg, usage = self._call_summary_api_once(prompt)
          if summary_text:
              return summary_text, usage
          if attempt < self.summary_max_retries:
              wait_time = min(5 * attempt, 30)
              time.sleep(wait_time)
      return None, None
  \<close>
  Besides the result the model returns what the loop did, in order: the attempts and the
  calls of \<^verbatim>\<open>time.sleep\<close>.
\<close>

datatype event = Attempt int | Sleep int

function call_summary_api_loop ::
  "summary_env \<Rightarrow> string \<Rightarrow> int \<Rightarrow> int
     \<Rightarrow> (string option \<times> (string \<times> int) list option) \<times> event list" where
  "call_summary_api_loop env prompt max_retries attempt =
     (if attempt > max_retries then ((None, None), [])
      else if truthy_text (fst (call_summary_api_once env prompt attempt))
        then (call_summary_api_once env prompt attempt, [Attempt attempt])
      else
        (fst (call_summary_api_loop env prompt max_retries (attempt + 1)),
         Attempt attempt
           # (if attempt < max_retries then [Sleep (min (5 * attempt) 30)] else [])
           @ snd (call_summary_api_loop env prompt max_retries (attempt + 1))))"
  by pat_completeness auto
termination
  by (relation "measure (\<lambda>(env, prompt, max_retries, attempt). nat (max_retries + 1 - attempt))")
     auto

definition call_summary_api_with_retry ::
  "summary_env \<Rightarrow> summarization_worker \<Rightarrow> string
     \<Rightarrow> (string option \<times> (string \<times> int) list option) \<times> event list" where
  "call_summary_api_with_retry env ag prompt =
     call_summary_api_loop env prompt (summary_max_retries ag) 1"

text \<open>The fixed texts of the two messages that stand in for a summary.\<close>

definition summary_failed_tag :: string where
  "summary_failed_tag =
     ''['' @ [CHR 0xE6, CHR 0x91, CHR 0x98, CHR 0xE8, CHR 0xA6, CHR 0x81, CHR 0xE7, CHR 0x94,
             CHR 0x9F, CHR 0xE6, CHR 0x88, CHR 0x90, CHR 0xE5, CHR 0xA4, CHR 0xB1, CHR 0xE8,
             CHR 0xB4, CHR 0xA5] @ '': ''"

definition original_task_label :: string where
  "original_task_label =
     [CHR 0xE5, CHR 0x8E, CHR 0x9F, CHR 0xE5, CHR 0xA7, CHR 0x8B, CHR 0xE4, CHR 0xBB, CHR 0xBB,
      CHR 0xE5, CHR 0x8A, CHR 0xA1] @ '': ''"

definition unknown_task :: string where
  "unknown_task =
     [CHR 0xE6, CHR 0x9C, CHR 0xAA, CHR 0xE7, CHR 0x9F, CHR 0xA5, CHR 0xE4, CHR 0xBB, CHR 0xBB,
      CHR 0xE5, CHR 0x8A, CHR 0xA1]"

definition retries_failed_body :: "int \<Rightarrow> string" where
  "retries_failed_body max_retries =
     [CHR 0xE7, CHR 0xBB, CHR 0x8F, CHR 0xE8, CHR 0xBF, CHR 0x87] @ '' ''
     @ str_int max_retries
     @ '' '' @ [CHR 0xE6, CHR 0xAC, CHR 0xA1, CHR 0xE9, CHR 0x87, CHR 0x8D, CHR 0xE8, CHR 0xAF,
                CHR 0x95, CHR 0xE5, CHR 0x90, CHR 0x8E, CHR 0xE4, CHR 0xBB, CHR 0x8D, CHR 0xE7,
                CHR 0x84, CHR 0xB6, CHR 0xE5, CHR 0xA4, CHR 0xB1, CHR 0xE8, CHR 0xB4, CHR 0xA5]
     @ '']'' @ nl @ nl
     @ [CHR 0xE8, CHR 0xAF, CHR 0xB7, CHR 0xE6, CHR 0xA3, CHR 0x80, CHR 0xE6, CHR 0x9F, CHR 0xA5,
        CHR 0xE7, CHR 0xBD, CHR 0x91, CHR 0xE7, CHR 0xBB, CHR 0x9C, CHR 0xE8, CHR 0xBF, CHR 0x9E,
        CHR 0xE6, CHR 0x8E, CHR 0xA5, CHR 0xE5, CHR 0x92, CHR 0x8C]
     @ '' API ''
     @ [CHR 0xE6, CHR 0x9C, CHR 0x8D, CHR 0xE5, CHR 0x8A, CHR 0xA1, CHR 0xE7, CHR 0x8A, CHR 0xB6,
        CHR 0xE6, CHR 0x80, CHR 0x81, CHR 0xE3, CHR 0x80, CHR 0x82]
     @ nl @ nl"

definition retries_failed_message :: "int \<Rightarrow> string \<Rightarrow> string" where
  "retries_failed_message max_retries task_text =
     summary_failed_tag @ retries_failed_body max_retries @ original_task_label @ task_text"

definition api_unavailable_body :: string where
  "api_unavailable_body =
     ''request_api_detail ''
     @ [CHR 0xE4, CHR 0xB8, CHR 0x8D, CHR 0xE5, CHR 0x8F, CHR 0xAF, CHR 0xE7, CHR 0x94, CHR 0xA8]
     @ '']'' @ nl @ nl
     @ [CHR 0xE8, CHR 0xAF, CHR 0xB7, CHR 0xE7, CHR 0xA1, CHR 0xAE, CHR 0xE4, CHR 0xBF, CHR 0x9D]
     @ '' my_utils ''
     @ [CHR 0xE6, CHR 0xA8, CHR 0xA1, CHR 0xE5, CHR 0x9D, CHR 0x97, CHR 0xE6, CHR 0xAD, CHR 0xA3,
        CHR 0xE7, CHR 0xA1, CHR 0xAE, CHR 0xE5, CHR 0xAE, CHR 0x89, CHR 0xE8, CHR 0xA3, CHR 0x85,
        CHR 0xE5, CHR 0xB9, CHR 0xB6, CHR 0xE4, CHR 0xB8, CHR 0x94]
     @ '' request_api_detail ''
     @ [CHR 0xE5, CHR 0x87, CHR 0xBD, CHR 0xE6, CHR 0x95, CHR 0xB0, CHR 0xE5, CHR 0x8F, CHR 0xAF,
        CHR 0xE7, CHR 0x94, CHR 0xA8, CHR 0xE3, CHR 0x80, CHR 0x82]
     @ nl @ nl"

definition api_unavailable_message :: "string \<Rightarrow> string" where
  "api_unavailable_message task_text =
     summary_failed_tag @ api_unavailable_body @ original_task_label @ task_text"

text \<open>
  \<^verbatim>\<open>
  def _generate_context_summary(self):
      if request_api_detail is None:
          error_msg = (...)
          return error_msg, None
      history_text = self._history_to_text()
      user_prompt = self.summary_user_template.format(
          task=self.task or "...", history=history_text)
      summary_text, usage = self._call_summary_api_with_retry(user_prompt)
      if summary_text:
          return summary_text, usage
      else:
          error_msg = (...)
          return error_msg, None
  \<close>
\<close>

definition user_prompt_of :: "summary_env \<Rightarrow> summarization_worker \<Rightarrow> string" where
  "user_prompt_of env ag =
     summary_user_template ag (if task ag \<noteq> [] then task ag else unknown_task)
       (history_to_text env (steps (worker_memory ag)))"

definition generate_context_summary ::
  "summary_env \<Rightarrow> summarization_worker \<Rightarrow> (string \<times> (string \<times> int) list option) \<times> event list" where
  "generate_context_summary env ag =
     (if \<not> api_available env then ((api_unavailable_message (task ag), None), [])
      else
        (let user_prompt = user_prompt_of env ag;
             r = call_summary_api_with_retry env ag user_prompt
         in case fst (fst r) of
              Some summary_text \<Rightarrow>
                if summary_text \<noteq> [] then ((summary_text, snd (fst r)), snd r)
                else ((retries_failed_message (summary_max_retries ag) (task ag), None), snd r)
            | None \<Rightarrow> ((retries_failed_message (summary_max_retries ag) (task ag), None), snd r)))"

text \<open>
  \<^verbatim>\<open>
  def _perform_context_summarization(self):
      tokens_before = self._get_last_input_tokens()
      steps_count = len(self.memory.steps)
      original_task = self.task
      summary, usage = self._generate_context_summary()
      ...
      self.memory.reset()
      summary_step = SummaryStep(
          original_task=original_task, summary=summary,
          summarized_steps_count=steps_count, tokens_before_summary=tokens_before)
      self.memory.steps.append(summary_step)
      self.memory.steps.append(TaskStep(task=self.task))
      self._summarization_count += 1
      self._total_tokens_saved += tokens_before
  \<close>
  \<^verbatim>\<open>AgentMemory.reset()\<close> of the host framework empties the list of steps.
\<close>

definition memory_reset :: "AgentMemory \<Rightarrow> AgentMemory" where
  "memory_reset m = m\<lparr>steps := []\<rparr>"

definition steps_append :: "memory_step \<Rightarrow> AgentMemory \<Rightarrow> AgentMemory" where
  "steps_append x m = m\<lparr>steps := steps m @ [x]\<rparr>"

definition perform_context_summarization ::
  "summary_env \<Rightarrow> summarization_worker \<Rightarrow> summarization_worker \<times> event list" where
  "perform_context_summarization env ag =
     (let tokens_before = get_last_input_tokens ag;
          steps_count = int (length (steps (worker_memory ag)));
          original_task = task ag;
          g = generate_context_summary env ag;
          summary = fst (fst g);
          m1 = memory_reset (worker_memory ag);
          m2 = steps_append (SummaryStep original_task summary steps_count tokens_before) m1;
          m3 = steps_append (TaskStep (task ag)) m2
      in (ag\<lparr>worker_memory := m3,
              summarization_count := summarization_count ag + 1,
              total_tokens_saved := total_tokens_saved ag + tokens_before\<rparr>,
          snd g))"

text \<open>
  \<^verbatim>\<open>
  def _step_stream(self, memory_step):
      if self._should_summarize():
          self._perform_context_summarization()
      yield from super()._step_stream(memory_step)
  \<close>
  The part before the step of the host framework starts.
\<close>

definition before_step :: "summary_env \<Rightarrow> summarization_worker \<Rightarrow> summarization_worker \<times> event list" where
  "before_step env ag =
     (if should_summarize ag then perform_context_summarization env ag else (ag, []))"

text \<open>
  \<^verbatim>\<open>_init_summarization\<close>, with the defaults of its signature for the settings that are
  not given.
\<close>

definition init_summarization ::
  "int option \<Rightarrow> int option \<Rightarrow> int option \<Rightarrow> summarization_worker \<Rightarrow> summarization_worker" where
  "init_summarization threshold min_steps max_retries ag =
     ag\<lparr>context_token_threshold := (case threshold of None \<Rightarrow> 80000 | Some t \<Rightarrow> t),
        min_steps_before_summary := (case min_steps of None \<Rightarrow> 5 | Some n \<Rightarrow> n),
        summary_max_retries := (case max_retries of None \<Rightarrow> 5 | Some n \<Rightarrow> n),
        summarization_count := 0,
        total_tokens_saved := 0\<rparr>"

subsection \<open>The trigger of compaction\<close>

text \<open>
  The trigger in the words of the specification: the input tokens that a step reports (an
  \<^verbatim>\<open>ActionStep\<close> or a \<^verbatim>\<open>PlanningStep\<close> whose token usage is not null), and the report of the
  most recent such step of a log.
\<close>

fun reported_input_tokens :: "memory_step \<Rightarrow> int option" where
  "reported_input_tokens (ActionStep n (Some u)) = Some (input_tokens u)"
| "reported_input_tokens (PlanningStep p (Some u)) = Some (input_tokens u)"
| "reported_input_tokens s = None"

definition last_recorded_input_tokens :: "memory_step list \<Rightarrow> int option" where
  "last_recorded_input_tokens xs =
     (case List.map_filter reported_input_tokens xs of
        [] \<Rightarrow> None
      | y # ys \<Rightarrow> Some (last (y # ys)))"

lemma scan_input_tokens_Cons:
  "scan_input_tokens (x # rest)
     = (case reported_input_tokens x of Some t \<Rightarrow> t | None \<Rightarrow> scan_input_tokens rest)"
proof (cases x)
  case (PlanningStep p u)
  then show ?thesis by (cases u) simp_all
next
  case (ActionStep n u)
  then show ?thesis by (cases u) simp_all
qed simp_all

lemma map_filter_snoc:
  "List.map_filter f (xs @ [x])
     = List.map_filter f xs @ (case f x of None \<Rightarrow> [] | Some y \<Rightarrow> [y])"
  by (simp add: List.map_filter_def split: option.splits)

lemma last_of_snoc_case:
  "(case ys @ [t] of [] \<Rightarrow> None | z # zs \<Rightarrow> Some (last (z # zs))) = Some t"
  by (cases ys) simp_all

lemma last_recorded_input_tokens_snoc:
  "last_recorded_input_tokens (xs @ [x])
     = (case reported_input_tokens x of
          Some t \<Rightarrow> Some t
        | None \<Rightarrow> last_recorded_input_tokens xs)"
proof (cases "reported_input_tokens x")
  case None
  then show ?thesis by (simp add: last_recorded_input_tokens_def map_filter_snoc)
next
  case (Some t)
  then show ?thesis
    by (simp only: last_recorded_input_tokens_def map_filter_snoc option.case last_of_snoc_case)
qed

lemma scan_input_tokens_rev:
  "scan_input_tokens (rev xs)
     = (case last_recorded_input_tokens xs of None \<Rightarrow> 0 | Some t \<Rightarrow> t)"
proof (induction xs rule: rev_induct)
  case Nil
  then show ?case by (simp add: last_recorded_input_tokens_def List.map_filter_def)
next
  case (snoc x xs)
  show ?case
    using snoc.IH
    by (cases "reported_input_tokens x")
       (simp_all add: scan_input_tokens_Cons last_recorded_input_tokens_snoc
          del: scan_input_tokens.simps)
qed

text \<open>
  C4. Before each step of a compaction-enabled worker, compaction runs exactly when
  \<^verbatim>\<open>_should_summarize\<close> holds. When the most recent step that reports token usage reports
  \<open>t\<close> input tokens, that is when \<open>t\<close> exceeds the threshold and the log holds at least
  \<open>min_steps_before_summary\<close> action steps. When no step reports token usage and the
  threshold is not negative, it does not hold and the worker is left as it is.
\<close>

theorem C4_compaction_trigger:
  "fst (before_step env ag)
     = (if should_summarize ag then fst (perform_context_summarization env ag) else ag)
   \<and> (last_recorded_input_tokens (steps (worker_memory ag)) = Some t \<longrightarrow>
        (should_summarize ag \<longleftrightarrow>
           t > context_token_threshold ag
           \<and> int (length (filter is_action_step (steps (worker_memory ag))))
               \<ge> min_steps_before_summary ag))
   \<and> (last_recorded_input_tokens (steps (worker_memory ag)) = None
        \<and> 0 \<le> context_token_threshold ag \<longrightarrow>
        \<not> should_summarize ag \<and> before_step env ag = (ag, []))"
  by (simp add: before_step_def should_summarize_def get_last_input_tokens_def
      count_action_steps_def scan_input_tokens_rev)

theorem C4_compaction_trigger_witness:
  "(let ag = \<lparr>task = ''q'',
               worker_memory = \<lparr>system_prompt = ''sp'',
                 steps = [TaskStep ''q'',
                          ActionStep 1 (Some \<lparr>input_tokens = 90000, output_tokens = 10\<rparr>),
                          ActionStep 2 None]\<rparr>,
               context_token_threshold = 80000, min_steps_before_summary = 2,
               summary_max_retries = 5, summary_user_template = (\<lambda>t h. t @ h),
               summarization_count = 0, total_tokens_saved = 0\<rparr>
    in last_recorded_input_tokens (steps (worker_memory ag)) = Some 90000
       \<and> should_summarize ag)
   \<and> (let ag = \<lparr>task = ''q'',
               worker_memory = \<lparr>system_prompt = ''sp'',
                 steps = [TaskStep ''q'', ActionStep 1 None]\<rparr>,
               context_token_threshold = 0, min_steps_before_summary = 1,
               summary_max_retries = 5, summary_user_template = (\<lambda>t h. t @ h),
               summarization_count = 0, total_tokens_saved = 0\<rparr>;
           env = \<lparr>api_available = True,
                  request_api_detail = (\<lambda>p a. ApiRaises ''down''),
                  history_to_text = (\<lambda>xs. [])\<rparr>
       in last_recorded_input_tokens (steps (worker_memory ag)) = None
          \<and> 0 \<le> context_token_threshold ag
          \<and> before_step env ag = (ag, []))"
proof -
  let ?ag1 = "\<lparr>task = ''q'',
               worker_memory = \<lparr>system_prompt = ''sp'',
                 steps = [TaskStep ''q'',
                          ActionStep 1 (Some \<lparr>input_tokens = 90000, output_tokens = 10\<rparr>),
                          ActionStep 2 None]\<rparr>,
               context_token_threshold = 80000, min_steps_before_summary = 2,
               summary_max_retries = 5, summary_user_template = (\<lambda>t h. t @ h),
               summarization_count = 0, total_tokens_saved = 0\<rparr>"
  let ?ag2 = "\<lparr>task = ''q'',
               worker_memory = \<lparr>system_prompt = ''sp'',
                 steps = [TaskStep ''q'', ActionStep 1 None]\<rparr>,
               context_token_threshold = 0, min_steps_before_summary = 1,
               summary_max_retries = 5, summary_user_template = (\<lambda>t h. t @ h),
               summarization_count = 0, total_tokens_saved = 0\<rparr>"
  let ?env = "\<lparr>api_available = True,
                  request_api_detail = (\<lambda>p a. ApiRaises ''down''),
                  history_to_text = (\<lambda>xs. [])\<rparr>"
  have l1: "last_recorded_input_tokens (steps (worker_memory ?ag1)) = Some 90000"
    by (simp add: last_recorded_input_tokens_def List.map_filter_def)
  have l2: "last_recorded_input_tokens (steps (worker_memory ?ag2)) = None"
    by (simp add: last_recorded_input_tokens_def List.map_filter_def)
  have t2: "0 \<le> context_token_threshold ?ag2" by simp
  from C4_compaction_trigger [of ?env ?ag1 90000] l1
  have s1: "should_summarize ?ag1" by simp
  from C4_compaction_trigger [of ?env ?ag2] l2 t2
  have s2: "before_step ?env ?ag2 = (?ag2, [])" by blast
  show ?thesis unfolding Let_def using l1 s1 l2 t2 s2 by (intro conjI)
qed

subsection \<open>The reset of the step log\<close>

text \<open>
  C3. When compaction runs, the step log afterwards holds exactly two entries: a
  \<^verbatim>\<open>SummaryStep\<close> with the task text of before as \<^verbatim>\<open>original_task\<close>, the generated summary
  text, the number of steps of before and the last recorded input-token count, and then a
  \<^verbatim>\<open>TaskStep\<close> with the same task text. The task text of the worker is not changed.
\<close>

theorem C3_compaction_resets_log:
  "steps (worker_memory (fst (perform_context_summarization env ag)))
     = [SummaryStep (task ag) (fst (fst (generate_context_summary env ag)))
          (int (length (steps (worker_memory ag)))) (get_last_input_tokens ag),
        TaskStep (task ag)]
   \<and> length (steps (worker_memory (fst (perform_context_summarization env ag)))) = 2
   \<and> task (fst (perform_context_summarization env ag)) = task ag
   \<and> get_last_input_tokens ag
       = (case last_recorded_input_tokens (steps (worker_memory ag)) of
            None \<Rightarrow> 0 | Some t \<Rightarrow> t)"
  by (simp add: perform_context_summarization_def memory_reset_def steps_append_def Let_def
      get_last_input_tokens_def scan_input_tokens_rev)

subsection \<open>Retries of the summarization call\<close>

text \<open>
  The schedule in the words of the specification: \<open>n\<close> attempts numbered from \<open>a\<close>, and
  between two consecutive attempts a sleep of \<open>min (5 * attempt) 30\<close> time units, where
  \<open>attempt\<close> is the number of the attempt that has just failed.
\<close>

fun backoff_from :: "int \<Rightarrow> nat \<Rightarrow> event list" where
  "backoff_from a 0 = []"
| "backoff_from a (Suc 0) = [Attempt a]"
| "backoff_from a (Suc (Suc n)) = Attempt a # Sleep (min (5 * a) 30) # backoff_from (a + 1) (Suc n)"

fun is_attempt :: "event \<Rightarrow> bool" where
  "is_attempt (Attempt a) = True"
| "is_attempt (Sleep d) = False"

text \<open>
  What counts as a failed attempt, by the result of the call: it raised, there is no
  response, the status code is not 200, the response holds no content (the content
  field is missing, or it is blank), or its \<^verbatim>\<open>usage\<close> entry is no dictionary.
\<close>

fun attempt_fails :: "api_result \<Rightarrow> bool" where
  "attempt_fails (ApiRaises e) = True"
| "attempt_fails (ApiReturns None status_code) = True"
| "attempt_fails (ApiReturns (Some resp) status_code) =
     (status_code \<noteq> 200
      \<or> (case message_content resp of None \<Rightarrow> True | Some c \<Rightarrow> strip c = [])
      \<or> usage resp = UsageNotDict)"

declare call_summary_api_loop.simps [simp del]

lemma backoff_from_Suc:
  "backoff_from a (Suc n)
     = Attempt a # (if n = 0 then [] else Sleep (min (5 * a) 30) # backoff_from (a + 1) n)"
  by (cases n) simp_all

lemma attempts_of_backoff_from: "length (filter is_attempt (backoff_from a n)) = n"
  by (induction a n rule: backoff_from.induct) simp_all

lemma call_summary_api_once_fails:
  "api_available env \<Longrightarrow>
   truthy_text (fst (call_summary_api_once env prompt a))
     \<longleftrightarrow> \<not> attempt_fails (request_api_detail env prompt a)"
proof (cases "request_api_detail env prompt a")
  case (ApiRaises e)
  then show ?thesis by (simp add: call_summary_api_once_def)
next
  case (ApiReturns r st)
  assume av: "api_available env"
  show ?thesis
  proof (cases r)
    case None
    then show ?thesis using ApiReturns av by (simp add: call_summary_api_once_def)
  next
    case (Some resp)
    then show ?thesis
      using ApiReturns av
      by (cases "message_content resp"; cases "usage resp")
         (simp_all add: call_summary_api_once_def extract_api_response_def Let_def)
  qed
qed

lemma call_summary_api_once_unavailable:
  "\<not> api_available env \<Longrightarrow> call_summary_api_once env prompt a = (None, None)"
  by (simp add: call_summary_api_once_def)

text \<open>What a successful attempt returns: the stripped content and the usage dictionary.\<close>

definition usage_of :: "usage_field \<Rightarrow> (string \<times> int) list option" where
  "usage_of u = (case u of UsageDict d \<Rightarrow> Some d | UsageAbsent \<Rightarrow> None | UsageNotDict \<Rightarrow> None)"

lemma call_summary_api_once_success:
  assumes "api_available env"
    and "request_api_detail env prompt a = ApiReturns (Some resp) 200"
    and "message_content resp = Some c" and "strip c \<noteq> []" and "usage resp \<noteq> UsageNotDict"
  shows "call_summary_api_once env prompt a = (Some (strip c), usage_of (usage resp))"
  using assms
  by (cases "usage resp")
     (simp_all add: call_summary_api_once_def extract_api_response_def usage_of_def Let_def)

lemma call_summary_api_loop_schedule:
  "\<exists>n. snd (call_summary_api_loop env prompt N a) = backoff_from a n
       \<and> int n \<le> max 0 (N - a + 1) \<and> (a \<le> N \<longrightarrow> 1 \<le> n)"
proof (induction env prompt N a rule: call_summary_api_loop.induct)
  case (1 env prompt N a)
  show ?case
  proof (cases "a > N")
    case True
    then have "snd (call_summary_api_loop env prompt N a) = backoff_from a 0"
      by (simp add: call_summary_api_loop.simps [of env prompt N a])
    then show ?thesis using True by (intro exI [of _ 0]) simp
  next
    case False
    show ?thesis
    proof (cases "truthy_text (fst (call_summary_api_once env prompt a))")
      case True
      then have "snd (call_summary_api_loop env prompt N a) = backoff_from a (Suc 0)"
        using False by (simp add: call_summary_api_loop.simps [of env prompt N a])
      then show ?thesis using False by (intro exI [of _ "Suc 0"]) simp
    next
      case fails: False
      from "1.IH" [OF False fails] obtain n where
        n: "snd (call_summary_api_loop env prompt N (a + 1)) = backoff_from (a + 1) n"
           "int n \<le> max 0 (N - (a + 1) + 1)" "a + 1 \<le> N \<longrightarrow> 1 \<le> n"
        by blast
      have t: "snd (call_summary_api_loop env prompt N a)
                 = Attempt a # (if a < N then [Sleep (min (5 * a) 30)] else [])
                     @ backoff_from (a + 1) n"
        using False fails n(1) by (simp add: call_summary_api_loop.simps [of env prompt N a])
      have "snd (call_summary_api_loop env prompt N a) = backoff_from a (Suc n)"
      proof (cases "a < N")
        case True
        with n(3) have "n \<noteq> 0" by simp
        then show ?thesis using t True by (simp add: backoff_from_Suc)
      next
        case eq: False
        with False n(2) have "n = 0" by simp
        then show ?thesis using t eq by (simp add: backoff_from_Suc)
      qed
      moreover have "int (Suc n) \<le> max 0 (N - a + 1)" using n(2) False by simp
      ultimately show ?thesis by (intro exI [of _ "Suc n"]) simp
    qed
  qed
qed

lemma call_summary_api_loop_all_fail:
  "(\<forall>i. a \<le> i \<and> i \<le> N \<longrightarrow> \<not> truthy_text (fst (call_summary_api_once env prompt i))) \<Longrightarrow>
   call_summary_api_loop env prompt N a = ((None, None), backoff_from a (nat (N - a + 1)))"
proof (induction env prompt N a rule: call_summary_api_loop.induct)
  case (1 env prompt N a)
  show ?case
  proof (cases "a > N")
    case True
    then show ?thesis by (simp add: call_summary_api_loop.simps [of env prompt N a])
  next
    case False
    from "1.prems" False have fails: "\<not> truthy_text (fst (call_summary_api_once env prompt a))"
      by simp
    from "1.prems" have
      "\<forall>i. a + 1 \<le> i \<and> i \<le> N \<longrightarrow> \<not> truthy_text (fst (call_summary_api_once env prompt i))"
      by simp
    from "1.IH" (1) [OF False fails this]
    have r: "call_summary_api_loop env prompt N (a + 1)
               = ((None, None), backoff_from (a + 1) (nat (N - (a + 1) + 1)))" .
    have s: "nat (N - a + 1) = Suc (nat (N - (a + 1) + 1))" using False by simp
    have u: "call_summary_api_loop env prompt N a
               = ((None, None),
                  Attempt a # (if a < N then [Sleep (min (5 * a) 30)] else [])
                    @ backoff_from (a + 1) (nat (N - (a + 1) + 1)))"
      using False fails r by (simp add: call_summary_api_loop.simps [of env prompt N a])
    show ?thesis
    proof (cases "a < N")
      case True
      then have "nat (N - (a + 1) + 1) \<noteq> 0" by simp
      then show ?thesis
        using True by (simp only: u s backoff_from_Suc) simp
    next
      case eq: False
      with False have "nat (N - (a + 1) + 1) = 0" by simp
      then show ?thesis
        using eq by (simp only: u s backoff_from_Suc) simp
    qed
  qed
qed

text \<open>
  The loop stops at the first attempt that yields a summary: the attempts before it have
  been made, each followed by its sleep, and no attempt after it is made.
\<close>

lemma call_summary_api_loop_first_success:
  "a \<le> k \<Longrightarrow> k \<le> N \<Longrightarrow>
   (\<forall>i. a \<le> i \<and> i < k \<longrightarrow> \<not> truthy_text (fst (call_summary_api_once env prompt i))) \<Longrightarrow>
   truthy_text (fst (call_summary_api_once env prompt k)) \<Longrightarrow>
   call_summary_api_loop env prompt N a
     = (call_summary_api_once env prompt k, backoff_from a (nat (k - a + 1)))"
proof (induction env prompt N a rule: call_summary_api_loop.induct)
  case (1 env prompt N a)
  from "1.prems" have aN: "\<not> a > N" by simp
  show ?case
  proof (cases "a = k")
    case True
    from "1.prems" have "call_summary_api_loop env prompt N k
        = (call_summary_api_once env prompt k, [Attempt k])"
      by (simp add: call_summary_api_loop.simps [of env prompt N k])
    then show ?thesis using True by simp
  next
    case False
    with "1.prems" have lt: "a < k" by simp
    with "1.prems" have fails: "\<not> truthy_text (fst (call_summary_api_once env prompt a))"
      by simp
    from "1.prems" have rest:
      "\<forall>i. a + 1 \<le> i \<and> i < k \<longrightarrow> \<not> truthy_text (fst (call_summary_api_once env prompt i))"
      by simp
    from lt have le: "a + 1 \<le> k" by simp
    from "1.IH" (1) [OF aN fails le "1.prems" (2) rest "1.prems" (4)]
    have r: "call_summary_api_loop env prompt N (a + 1)
               = (call_summary_api_once env prompt k, backoff_from (a + 1) (nat (k - (a + 1) + 1)))" .
    have s: "nat (k - a + 1) = Suc (nat (k - (a + 1) + 1))" using lt by simp
    have ne: "nat (k - (a + 1) + 1) \<noteq> 0" using lt by simp
    have altN: "a < N" using lt "1.prems" by simp
    have u: "call_summary_api_loop env prompt N a
               = (call_summary_api_once env prompt k,
                  Attempt a # [Sleep (min (5 * a) 30)]
                    @ backoff_from (a + 1) (nat (k - (a + 1) + 1)))"
      using aN fails r altN by (simp add: call_summary_api_loop.simps [of env prompt N a])
    show ?thesis
      using ne by (simp only: u s backoff_from_Suc) simp
  qed
qed

lemma call_summary_api_with_retry_first_success:
  assumes av: "api_available env"
    and k: "1 \<le> k" "k \<le> summary_max_retries ag"
    and before: "\<forall>i. 1 \<le> i \<and> i < k \<longrightarrow> attempt_fails (request_api_detail env prompt i)"
    and at: "request_api_detail env prompt k = ApiReturns (Some resp) 200"
      "message_content resp = Some c" "strip c \<noteq> []" "usage resp \<noteq> UsageNotDict"
  shows "call_summary_api_with_retry env ag prompt
           = ((Some (strip c), usage_of (usage resp)), backoff_from 1 (nat k))"
proof -
  have once: "call_summary_api_once env prompt k = (Some (strip c), usage_of (usage resp))"
    by (rule call_summary_api_once_success [OF av at])
  then have ok: "truthy_text (fst (call_summary_api_once env prompt k))" using at(3) by simp
  from before av have
    "\<forall>i. 1 \<le> i \<and> i < k \<longrightarrow> \<not> truthy_text (fst (call_summary_api_once env prompt i))"
    by (simp add: call_summary_api_once_fails)
  from call_summary_api_loop_first_success [OF k this ok]
  show ?thesis by (simp add: call_summary_api_with_retry_def once)
qed

lemma generate_context_summary_success:
  assumes "api_available env"
    and "call_summary_api_with_retry env ag (user_prompt_of env ag) = ((Some t, u), tr)"
    and "t \<noteq> []"
  shows "generate_context_summary env ag = ((t, u), tr)"
  using assms by (simp add: generate_context_summary_def)

lemma retries_failed_message_shape:
  "prefix summary_failed_tag (retries_failed_message N t) \<and> suffix t (retries_failed_message N t)"
proof -
  have "retries_failed_message N t
          = (summary_failed_tag @ retries_failed_body N @ original_task_label) @ t"
    by (simp add: retries_failed_message_def)
  then have "suffix t (retries_failed_message N t)" by (rule suffixI)
  moreover have "prefix summary_failed_tag (retries_failed_message N t)"
    by (simp add: retries_failed_message_def)
  ultimately show ?thesis by blast
qed

lemma api_unavailable_message_shape:
  "prefix summary_failed_tag (api_unavailable_message t) \<and> suffix t (api_unavailable_message t)"
proof -
  have "api_unavailable_message t
          = (summary_failed_tag @ api_unavailable_body @ original_task_label) @ t"
    by (simp add: api_unavailable_message_def)
  then have "suffix t (api_unavailable_message t)" by (rule suffixI)
  moreover have "prefix summary_failed_tag (api_unavailable_message t)"
    by (simp add: api_unavailable_message_def)
  ultimately show ?thesis by blast
qed

lemma generate_context_summary_degraded:
  assumes "\<not> api_available env
           \<or> (\<forall>i. 1 \<le> i \<and> i \<le> summary_max_retries ag \<longrightarrow>
                  attempt_fails (request_api_detail env (user_prompt_of env ag) i))"
  shows "generate_context_summary env ag
           = (if api_available env
              then ((retries_failed_message (summary_max_retries ag) (task ag), None),
                    backoff_from 1 (nat (summary_max_retries ag)))
              else ((api_unavailable_message (task ag), None), []))"
proof (cases "api_available env")
  case False
  then show ?thesis by (simp add: generate_context_summary_def)
next
  case True
  with assms have
    "\<forall>i. 1 \<le> i \<and> i \<le> summary_max_retries ag \<longrightarrow>
        \<not> truthy_text (fst (call_summary_api_once env (user_prompt_of env ag) i))"
    by (simp add: call_summary_api_once_fails)
  from call_summary_api_loop_all_fail [OF this]
  have "call_summary_api_with_retry env ag (user_prompt_of env ag)
          = ((None, None), backoff_from 1 (nat (summary_max_retries ag)))"
    by (simp add: call_summary_api_with_retry_def)
  then show ?thesis using True by (simp add: generate_context_summary_def)
qed

text \<open>
  C7. The summarization call is attempted at most \<^verbatim>\<open>summary_max_retries\<close> times (5 when the
  setting is not given), and what the retry loop does is a run of attempts numbered from 1
  with a sleep of \<open>min (5 * attempt) 30\<close> after each failed attempt that is followed by
  another one. An attempt yields a summary exactly when it does not fail, where failing is
  raising, no response, a status code other than 200, no content, or a \<^verbatim>\<open>usage\<close> entry that
  is no dictionary. The loop stops at the first attempt that does not fail: when the
  attempts before attempt \<open>k\<close> fail and attempt \<open>k\<close> returns a content that is not blank,
  exactly \<open>k\<close> attempts are made and the summary is that content, stripped. When the
  service is not available or every attempt fails, the summary text begins with the
  statement that the generation of the summary failed and ends with the task text, all
  attempts have been made, and compaction still resets the step log, with this text as the
  summary.
\<close>

theorem C7_summary_retries:
  "(\<exists>n. snd (call_summary_api_with_retry env ag prompt) = backoff_from 1 n
        \<and> int n \<le> max 0 (summary_max_retries ag)
        \<and> length (filter is_attempt (snd (call_summary_api_with_retry env ag prompt))) = n)
   \<and> summary_max_retries (init_summarization threshold min_steps None ag) = 5
   \<and> (api_available env \<longrightarrow>
        (truthy_text (fst (call_summary_api_once env prompt a))
           \<longleftrightarrow> \<not> attempt_fails (request_api_detail env prompt a)))
   \<and> (api_available env \<and> 1 \<le> k \<and> k \<le> summary_max_retries ag
        \<and> (\<forall>i. 1 \<le> i \<and> i < k \<longrightarrow> attempt_fails (request_api_detail env prompt i))
        \<and> request_api_detail env prompt k = ApiReturns (Some resp) 200
        \<and> message_content resp = Some c \<and> strip c \<noteq> [] \<and> usage resp \<noteq> UsageNotDict
       \<longrightarrow> call_summary_api_with_retry env ag prompt
             = ((Some (strip c), usage_of (usage resp)), backoff_from 1 (nat k))
          \<and> (prompt = user_prompt_of env ag \<longrightarrow>
               generate_context_summary env ag
                 = ((strip c, usage_of (usage resp)), backoff_from 1 (nat k))))
   \<and> (\<not> api_available env
        \<or> (\<forall>i. 1 \<le> i \<and> i \<le> summary_max_retries ag \<longrightarrow>
               attempt_fails (request_api_detail env (user_prompt_of env ag) i))
       \<longrightarrow> prefix summary_failed_tag (fst (fst (generate_context_summary env ag)))
          \<and> suffix (task ag) (fst (fst (generate_context_summary env ag)))
          \<and> (api_available env \<longrightarrow>
               generate_context_summary env ag
                 = ((retries_failed_message (summary_max_retries ag) (task ag), None),
                    backoff_from 1 (nat (summary_max_retries ag))))
          \<and> steps (worker_memory (fst (perform_context_summarization env ag)))
              = [SummaryStep (task ag) (fst (fst (generate_context_summary env ag)))
                   (int (length (steps (worker_memory ag)))) (get_last_input_tokens ag),
                 TaskStep (task ag)])"
proof -
  from call_summary_api_loop_schedule [of env prompt "summary_max_retries ag" 1]
  obtain n where n: "snd (call_summary_api_with_retry env ag prompt) = backoff_from 1 n"
    "int n \<le> max 0 (summary_max_retries ag)"
    by (auto simp: call_summary_api_with_retry_def)
  have p1: "\<exists>n. snd (call_summary_api_with_retry env ag prompt) = backoff_from 1 n
        \<and> int n \<le> max 0 (summary_max_retries ag)
        \<and> length (filter is_attempt (snd (call_summary_api_with_retry env ag prompt))) = n"
    using n by (intro exI [of _ n]) (simp add: attempts_of_backoff_from)
  have p2: "summary_max_retries (init_summarization threshold min_steps None ag) = 5"
    by (simp add: init_summarization_def)
  have p3: "api_available env \<longrightarrow>
        (truthy_text (fst (call_summary_api_once env prompt a))
           \<longleftrightarrow> \<not> attempt_fails (request_api_detail env prompt a))"
    by (simp add: call_summary_api_once_fails)
  have p5: "api_available env \<and> 1 \<le> k \<and> k \<le> summary_max_retries ag
        \<and> (\<forall>i. 1 \<le> i \<and> i < k \<longrightarrow> attempt_fails (request_api_detail env prompt i))
        \<and> request_api_detail env prompt k = ApiReturns (Some resp) 200
        \<and> message_content resp = Some c \<and> strip c \<noteq> [] \<and> usage resp \<noteq> UsageNotDict
       \<longrightarrow> call_summary_api_with_retry env ag prompt
             = ((Some (strip c), usage_of (usage resp)), backoff_from 1 (nat k))
          \<and> (prompt = user_prompt_of env ag \<longrightarrow>
               generate_context_summary env ag
                 = ((strip c, usage_of (usage resp)), backoff_from 1 (nat k)))"
  proof
    assume h: "api_available env \<and> 1 \<le> k \<and> k \<le> summary_max_retries ag
        \<and> (\<forall>i. 1 \<le> i \<and> i < k \<longrightarrow> attempt_fails (request_api_detail env prompt i))
        \<and> request_api_detail env prompt k = ApiReturns (Some resp) 200
        \<and> message_content resp = Some c \<and> strip c \<noteq> [] \<and> usage resp \<noteq> UsageNotDict"
    then have r: "call_summary_api_with_retry env ag prompt
             = ((Some (strip c), usage_of (usage resp)), backoff_from 1 (nat k))"
      by (intro call_summary_api_with_retry_first_success) blast+
    have "prompt = user_prompt_of env ag \<longrightarrow>
               generate_context_summary env ag
                 = ((strip c, usage_of (usage resp)), backoff_from 1 (nat k))"
    proof
      assume "prompt = user_prompt_of env ag"
      with r have "call_summary_api_with_retry env ag (user_prompt_of env ag)
             = ((Some (strip c), usage_of (usage resp)), backoff_from 1 (nat k))"
        by simp
      from generate_context_summary_success [OF _ this] h
      show "generate_context_summary env ag
                 = ((strip c, usage_of (usage resp)), backoff_from 1 (nat k))"
        by blast
    qed
    with r show "call_summary_api_with_retry env ag prompt
             = ((Some (strip c), usage_of (usage resp)), backoff_from 1 (nat k))
          \<and> (prompt = user_prompt_of env ag \<longrightarrow>
               generate_context_summary env ag
                 = ((strip c, usage_of (usage resp)), backoff_from 1 (nat k)))"
      by (intro conjI)
  qed
  have p4: "\<not> api_available env
        \<or> (\<forall>i. 1 \<le> i \<and> i \<le> summary_max_retries ag \<longrightarrow>
               attempt_fails (request_api_detail env (user_prompt_of env ag) i))
       \<longrightarrow> prefix summary_failed_tag (fst (fst (generate_context_summary env ag)))
          \<and> suffix (task ag) (fst (fst (generate_context_summary env ag)))
          \<and> (api_available env \<longrightarrow>
               generate_context_summary env ag
                 = ((retries_failed_message (summary_max_retries ag) (task ag), None),
                    backoff_from 1 (nat (summary_max_retries ag))))
          \<and> steps (worker_memory (fst (perform_context_summarization env ag)))
              = [SummaryStep (task ag) (fst (fst (generate_context_summary env ag)))
                   (int (length (steps (worker_memory ag)))) (get_last_input_tokens ag),
                 TaskStep (task ag)]"
  proof
    assume h: "\<not> api_available env
        \<or> (\<forall>i. 1 \<le> i \<and> i \<le> summary_max_retries ag \<longrightarrow>
               attempt_fails (request_api_detail env (user_prompt_of env ag) i))"
    note g = generate_context_summary_degraded [OF h]
    have a: "prefix summary_failed_tag (fst (fst (generate_context_summary env ag)))"
      using retries_failed_message_shape [of "summary_max_retries ag" "task ag"]
        api_unavailable_message_shape [of "task ag"]
      by (simp add: g)
    have b: "suffix (task ag) (fst (fst (generate_context_summary env ag)))"
      using retries_failed_message_shape [of "summary_max_retries ag" "task ag"]
        api_unavailable_message_shape [of "task ag"]
      by (simp add: g)
    have c: "api_available env \<longrightarrow>
               generate_context_summary env ag
                 = ((retries_failed_message (summary_max_retries ag) (task ag), None),
                    backoff_from 1 (nat (summary_max_retries ag)))"
      by (simp add: g)
    have d: "steps (worker_memory (fst (perform_context_summarization env ag)))
              = [SummaryStep (task ag) (fst (fst (generate_context_summary env ag)))
                   (int (length (steps (worker_memory ag)))) (get_last_input_tokens ag),
                 TaskStep (task ag)]"
      by (simp add: perform_context_summarization_def memory_reset_def steps_append_def Let_def)
    from a b c d show "prefix summary_failed_tag (fst (fst (generate_context_summary env ag)))
          \<and> suffix (task ag) (fst (fst (generate_context_summary env ag)))
          \<and> (api_available env \<longrightarrow>
               generate_context_summary env ag
                 = ((retries_failed_message (summary_max_retries ag) (task ag), None),
                    backoff_from 1 (nat (summary_max_retries ag))))
          \<and> steps (worker_memory (fst (perform_context_summarization env ag)))
              = [SummaryStep (task ag) (fst (fst (generate_context_summary env ag)))
                   (int (length (steps (worker_memory ag)))) (get_last_input_tokens ag),
                 TaskStep (task ag)]"
      by (intro conjI)
  qed
  from p1 p2 p3 p5 p4 show ?thesis by (intro conjI)
qed

theorem C7_summary_retries_witness:
  "(let ag = \<lparr>task = ''find it'',
               worker_memory = \<lparr>system_prompt = ''sp'', steps = [TaskStep ''find it'']\<rparr>,
               context_token_threshold = 80000, min_steps_before_summary = 5,
               summary_max_retries = 8, summary_user_template = (\<lambda>t h. t @ h),
               summarization_count = 0, total_tokens_saved = 0\<rparr>;
        env = \<lparr>api_available = True,
               request_api_detail = (\<lambda>p a. ApiReturns None 500),
               history_to_text = (\<lambda>xs. [])\<rparr>;
        late = \<lparr>api_available = True,
                request_api_detail =
                  (\<lambda>p a. if a = 1 then ApiRaises ''timed out''
                         else if a = 2 then
                           ApiReturns (Some \<lparr>message_content = Some ''summary'',
                                             usage = UsageNotDict\<rparr>) 200
                         else
                           ApiReturns (Some \<lparr>message_content =
                                               Some ('' done'' @ [CHR 0xC2, CHR 0xA0, CHR 0x0A]),
                                             usage = UsageDict [(''total_tokens'', 7)]\<rparr>) 200),
                history_to_text = (\<lambda>xs. [])\<rparr>
    in (\<forall>i. 1 \<le> i \<and> i \<le> summary_max_retries ag \<longrightarrow>
               attempt_fails (request_api_detail env (user_prompt_of env ag) i))
       \<and> snd (generate_context_summary env ag)
           = [Attempt 1, Sleep 5, Attempt 2, Sleep 10, Attempt 3, Sleep 15, Attempt 4, Sleep 20,
              Attempt 5, Sleep 25, Attempt 6, Sleep 30, Attempt 7, Sleep 30, Attempt 8]
       \<and> prefix summary_failed_tag (fst (fst (generate_context_summary env ag)))
       \<and> suffix ''find it'' (fst (fst (generate_context_summary env ag)))
       \<and> length (steps (worker_memory (fst (perform_context_summarization env ag)))) = 2
       \<and> (\<forall>i. 1 \<le> i \<and> i < 3 \<longrightarrow>
               attempt_fails (request_api_detail late (user_prompt_of late ag) i))
       \<and> generate_context_summary late ag
           = ((''done'', Some [(''total_tokens'', 7)]),
              [Attempt 1, Sleep 5, Attempt 2, Sleep 10, Attempt 3]))"
proof -
  let ?ag = "\<lparr>task = ''find it'',
               worker_memory = \<lparr>system_prompt = ''sp'', steps = [TaskStep ''find it'']\<rparr>,
               context_token_threshold = 80000, min_steps_before_summary = 5,
               summary_max_retries = 8, summary_user_template = (\<lambda>t h. t @ h),
               summarization_count = 0, total_tokens_saved = 0\<rparr>"
  let ?env = "\<lparr>api_available = True,
               request_api_detail = (\<lambda>p a. ApiReturns None 500),
               history_to_text = (\<lambda>xs. [])\<rparr>"
  let ?resp = "\<lparr>message_content = Some ('' done'' @ [CHR 0xC2, CHR 0xA0, CHR 0x0A]),
                 usage = UsageDict [(''total_tokens'', 7)]\<rparr>"
  let ?late = "\<lparr>api_available = True,
                request_api_detail =
                  (\<lambda>p a. if a = 1 then ApiRaises ''timed out''
                         else if a = 2 then
                           ApiReturns (Some \<lparr>message_content = Some ''summary'',
                                             usage = UsageNotDict\<rparr>) 200
                         else ApiReturns (Some ?resp) 200),
                history_to_text = (\<lambda>xs. [])\<rparr>"
  have f: "\<forall>i. 1 \<le> i \<and> i \<le> summary_max_retries ?ag \<longrightarrow>
               attempt_fails (request_api_detail ?env (user_prompt_of ?env ?ag) i)"
    by simp
  then have h: "\<not> api_available ?env
        \<or> (\<forall>i. 1 \<le> i \<and> i \<le> summary_max_retries ?ag \<longrightarrow>
               attempt_fails (request_api_detail ?env (user_prompt_of ?env ?ag) i))"
    by blast
  have av: "api_available ?env" by simp
  have sched: "backoff_from 1 (nat (summary_max_retries ?ag))
      = [Attempt 1, Sleep 5, Attempt 2, Sleep 10, Attempt 3, Sleep 15, Attempt 4, Sleep 20,
         Attempt 5, Sleep 25, Attempt 6, Sleep 30, Attempt 7, Sleep 30, Attempt 8]"
    by (simp add: eval_nat_numeral)
  note q = C7_summary_retries [of ?env ?ag "[]" "None" "None" 1,
      THEN conjunct2, THEN conjunct2, THEN conjunct2, THEN conjunct2, THEN mp, OF h]
  note c = q [THEN conjunct1] q [THEN conjunct2, THEN conjunct1]
    q [THEN conjunct2, THEN conjunct2, THEN conjunct1, THEN mp, OF av]
    q [THEN conjunct2, THEN conjunct2, THEN conjunct2]
  have s: "snd (generate_context_summary ?env ?ag)
           = [Attempt 1, Sleep 5, Attempt 2, Sleep 10, Attempt 3, Sleep 15, Attempt 4, Sleep 20,
              Attempt 5, Sleep 25, Attempt 6, Sleep 30, Attempt 7, Sleep 30, Attempt 8]"
    using c(3) sched by simp
  have t: "suffix ''find it'' (fst (fst (generate_context_summary ?env ?ag)))"
    using c(2) by simp
  have l: "length (steps (worker_memory (fst (perform_context_summarization ?env ?ag)))) = 2"
    using c(4) by simp
  have two: "\<forall>i::int. 1 \<le> i \<and> i < 3 \<longrightarrow> i = 1 \<or> i = 2" by presburger
  have lf: "\<forall>i. 1 \<le> i \<and> i < 3 \<longrightarrow>
               attempt_fails (request_api_detail ?late (user_prompt_of ?late ?ag) i)"
    using two by auto
  have st: "strip ('' done'' @ [CHR 0xC2, CHR 0xA0, CHR 0x0A]) = ''done''"
    by code_simp
  have hyp: "api_available ?late \<and> (1::int) \<le> 3 \<and> 3 \<le> summary_max_retries ?ag
        \<and> (\<forall>i. 1 \<le> i \<and> i < 3 \<longrightarrow>
               attempt_fails (request_api_detail ?late (user_prompt_of ?late ?ag) i))
        \<and> request_api_detail ?late (user_prompt_of ?late ?ag) 3 = ApiReturns (Some ?resp) 200
        \<and> message_content ?resp = Some ('' done'' @ [CHR 0xC2, CHR 0xA0, CHR 0x0A])
        \<and> strip ('' done'' @ [CHR 0xC2, CHR 0xA0, CHR 0x0A]) \<noteq> []
        \<and> usage ?resp \<noteq> UsageNotDict"
    using lf st by simp
  note p = C7_summary_retries [where env = ?late and ag = ?ag
      and prompt = "user_prompt_of ?late ?ag"
      and k = 3 and resp = ?resp and c = "'' done'' @ [CHR 0xC2, CHR 0xA0, CHR 0x0A]",
      THEN conjunct2, THEN conjunct2, THEN conjunct2, THEN conjunct1, THEN mp, OF hyp,
      THEN conjunct2, THEN mp, OF refl]
  from p have "generate_context_summary ?late ?ag
          = ((strip ('' done'' @ [CHR 0xC2, CHR 0xA0, CHR 0x0A]), usage_of (usage ?resp)),
             backoff_from 1 (nat 3))" .
  then have g: "generate_context_summary ?late ?ag
           = ((''done'', Some [(''total_tokens'', 7)]),
              [Attempt 1, Sleep 5, Attempt 2, Sleep 10, Attempt 3])"
    by (simp only: st) (simp add: usage_of_def eval_nat_numeral)
  show ?thesis unfolding Let_def using f s c(1) t l lf g by (intro conjI)
qed

section \<open>Task Scheduler: which tasks are complete\<close>

text \<open>
  run_widesearch_batch_inference.py. A Python value, as read from a JSON file or returned
  by a worker, is \<^verbatim>\<open>None\<close>, a text, a truth value, or any other value (number, list,
  dictionary, object), of which the code observes the truth value and the rendering by
  \<^verbatim>\<open>str\<close> only.
\<close>

datatype py_value = PyNone | PyStr string | PyBool bool | PyOther bool string

fun truthy :: "py_value \<Rightarrow> bool" where
  "truthy PyNone = False"
| "truthy (PyStr s) = (s \<noteq> [])"
| "truthy (PyBool b) = b"
| "truthy (PyOther b r) = b"

fun py_str :: "py_value \<Rightarrow> string" where
  "py_str PyNone = ''None''"
| "py_str (PyStr s) = s"
| "py_str (PyBool b) = (if b then ''True'' else ''False'')"
| "py_str (PyOther b r) = r"

text \<open>
  A dictionary with text keys is an association list in insertion order, with distinct
  keys. \<^verbatim>\<open>d.get(k)\<close> is \<^verbatim>\<open>None\<close> for a missing key; \<^verbatim>\<open>d[k] = v\<close> is \<^const>\<open>AList.update\<close>;
  \<^verbatim>\<open>a or b\<close> is \<open>a\<close> when \<open>a\<close> is true, else \<open>b\<close>.
\<close>

type_synonym py_dict = "(string \<times> py_value) list"



subsection \<open>The patterns of \<^verbatim>\<open>contains_tool_tags\<close>\<close>















subsection \<open>Properties of the completed-task check\<close>



















section \<open>Running one task: \<^verbatim>\<open>run_inference\<close>\<close>

text \<open>
  run_widesearch_inference.py. The call \<^verbatim>\<open>agent.run(augmented_question)\<close> returns a value,
  raises an exception of class \<^verbatim>\<open>Exception\<close> whose \<^verbatim>\<open>str\<close> is the given message, or raises
  some other \<^verbatim>\<open>BaseException\<close> (such as \<^verbatim>\<open>KeyboardInterrupt\<close>), which \<^verbatim>\<open>except Exception\<close>
  does not catch.
\<close>

datatype run_outcome = Returns py_value | RaisesException string | RaisesBaseException

text \<open>
  What precedes the run (the opening prints, reading the API key, creating the models,
  clearing the database, creating the agent team) is taken by its outcome: it raises, it
  makes \<^verbatim>\<open>run_inference\<close> return \<^verbatim>\<open>None\<close>, or it completes.
\<close>

datatype setup_outcome = SetupCompletes | SetupReturnsNone | SetupRaises string

text \<open>
  The messages of \<^verbatim>\<open>run_inference\<close> go to \<^verbatim>\<open>console = Console()\<close> of the \<^verbatim>\<open>rich\<close> library,
  which reads square brackets in the text it is given as markup and raises when it cannot
  (for a closing tag without an opening one, for instance). The library is not part of
  the repository: \<open>console_print\<close> says, for each call of \<^verbatim>\<open>console.print\<close> from the run on,
  by its place in the source and the values put into its text, whether it raises (an
  exception of class \<^verbatim>\<open>Exception\<close>, with the message given) or returns.
  \<open>logger_close\<close> is the message of the exception that \<^verbatim>\<open>task_logger.close()\<close> raises, if it
  does.
\<close>

datatype print_site =
    PrintRunning "string option"
  | PrintCompleted "string option"
  | PrintErrorType "string option"
  | PrintErrorDetails string
  | PrintCleaning "string option"
  | PrintCloseWarning string
  | PrintSaved string
  | PrintNotSaved
  | PrintAnswer string

record runtime =
  console_print :: "print_site \<Rightarrow> string option"
  logger_close :: "string option"

text \<open>
  The readings of the clock and the values computed from them (floating point) are
  parameters, as are the model ids. An output directory is a map from paths to the
  dictionaries written there by \<^verbatim>\<open>json.dump\<close>; creating the directory and writing the file
  are taken to succeed.
\<close>

record clock =
  start_time_iso :: string
  end_time_iso :: string
  duration_seconds :: py_value
  duration_1f :: string

record model_ids =
  main_model_id :: string
  tabular_model_id :: string
  deep_model_id :: string

type_synonym files = "string \<Rightarrow> py_dict option"

text \<open>
  \<^verbatim>\<open>
  task_id = instance_id
  ...
  output = None
  try:
      console.print(f"[{task_id}] Running agent...")
      output = agent.run(augmented_question)
      console.print(f"[bold green][{task_id}] ... Agent completed successfully[/bold green]")
  except Exception as e:
      console.print(f"[bold red][{task_id}] ... ERROR: {type(e).__name__}[/bold red]")
      console.print(f"[bold red]Error details: {e}[/bold red]")
      traceback.print_exc()
      output = f"Error: {str(e)}"
  finally:
      console.print(f"[{task_id}] Cleaning up resources...")
      if task_logger:
          try:
              task_logger.close()
          except Exception as e:
              console.print(f"[yellow]Warning: Error closing log file: {e}[/yellow]")
      ...
      result = {"task_id": task_id, "question": question,
                "answer": str(output) if output else None,
                "start_time": ..., "end_time": ..., "duration_seconds": duration,
                "main_model_id": ..., "tabular_model_id": ..., "deep_model_id": ...}
      ...
      if instance_id:
          result["instance_id"] = instance_id
          output_file = f'{output_dir}/{instance_id}.json'
      else:
          output_file = f'{output_dir}/result_{task_id}.json'
      os.makedirs(output_dir, exist_ok=True)
      output_str = str(output) if output else ""
      if output and not output_str.startswith("Error:"):
          with open(output_file, 'w', encoding='utf-8') as f:
              json.dump(result, f, ensure_ascii=False, indent=2)
          console.print(f"[bold green]... Results saved to: {output_file}[/bold green]")
      else:
          console.print(f"[yellow]... Task failed or error occurred, not saving result file[/yellow]")
      console.print(f"[bold]Answer:[/bold] {output}")
      return output
  \<close>
  An exception raised inside the \<^verbatim>\<open>try\<close> (by the run or by a print) is handled by the
  \<^verbatim>\<open>except\<close> clause; an exception raised inside the \<^verbatim>\<open>except\<close> clause leaves \<^verbatim>\<open>output\<close> as it
  is. In both cases, and for a \<^verbatim>\<open>BaseException\<close>, the \<^verbatim>\<open>finally\<close> clause runs next, and its
  \<^verbatim>\<open>return\<close> discards an exception that is still in flight; an exception raised inside the
  \<^verbatim>\<open>finally\<close> clause itself leaves \<^verbatim>\<open>run_inference\<close>. (The entry \<^verbatim>\<open>managed_agent_statistics\<close>
  of the dictionary is left out.)
\<close>

definition output_file_of :: "string \<Rightarrow> string option \<Rightarrow> string" where
  "output_file_of output_dir instance_id =
     (case instance_id of
        None \<Rightarrow> output_dir @ ''/result_None.json''
      | Some i \<Rightarrow>
          if i \<noteq> [] then output_dir @ ''/'' @ i @ ''.json''
          else output_dir @ ''/result_'' @ i @ ''.json'')"

definition inference_result ::
  "string option \<Rightarrow> string \<Rightarrow> py_value \<Rightarrow> clock \<Rightarrow> model_ids \<Rightarrow> py_dict" where
  "inference_result instance_id question_text output clk ids =
     [(''task_id'', (case instance_id of None \<Rightarrow> PyNone | Some i \<Rightarrow> PyStr i)),
      (''question'', PyStr question_text),
      (''answer'', (if truthy output then PyStr (py_str output) else PyNone)),
      (''start_time'', PyStr (start_time_iso clk)),
      (''end_time'', PyStr (end_time_iso clk)),
      (''duration_seconds'', duration_seconds clk),
      (''main_model_id'', PyStr (main_model_id ids)),
      (''tabular_model_id'', PyStr (tabular_model_id ids)),
      (''deep_model_id'', PyStr (deep_model_id ids))]
     @ (case instance_id of
          None \<Rightarrow> []
        | Some i \<Rightarrow> if i \<noteq> [] then [(''instance_id'', PyStr i)] else [])"

text \<open>
  The \<^verbatim>\<open>except\<close> clause, entered with the current \<^verbatim>\<open>output\<close> and the message of the
  exception: the value of \<^verbatim>\<open>output\<close> when the clause is left.
\<close>

definition except_clause :: "runtime \<Rightarrow> string option \<Rightarrow> py_value \<Rightarrow> string \<Rightarrow> py_value" where
  "except_clause rt task_id output e =
     (case console_print rt (PrintErrorType task_id) of
        Some m \<Rightarrow> output
      | None \<Rightarrow>
          (case console_print rt (PrintErrorDetails e) of
             Some m \<Rightarrow> output
           | None \<Rightarrow> PyStr (''Error: '' @ e)))"

text \<open>The value of \<^verbatim>\<open>output\<close> when the \<^verbatim>\<open>finally\<close> clause begins.\<close>

definition output_of_try :: "runtime \<Rightarrow> run_outcome \<Rightarrow> string option \<Rightarrow> py_value" where
  "output_of_try rt agent_run task_id =
     (case console_print rt (PrintRunning task_id) of
        Some m \<Rightarrow> except_clause rt task_id PyNone m
      | None \<Rightarrow>
          (case agent_run of
             Returns v \<Rightarrow>
               (case console_print rt (PrintCompleted task_id) of
                  Some m \<Rightarrow> except_clause rt task_id v m
                | None \<Rightarrow> v)
           | RaisesException e \<Rightarrow> except_clause rt task_id PyNone e
           | RaisesBaseException \<Rightarrow> PyNone))"

text \<open>
  The result of \<^verbatim>\<open>run_inference\<close> is the value returned (\<open>Inr\<close>) or the message of the
  exception that leaves it (\<open>Inl\<close>), with the output directory afterwards.
\<close>

definition run_inference ::
  "setup_outcome \<Rightarrow> runtime \<Rightarrow> run_outcome \<Rightarrow> string \<Rightarrow> string \<Rightarrow> string option \<Rightarrow> clock
     \<Rightarrow> model_ids \<Rightarrow> files \<Rightarrow> (string + py_value) \<times> files" where
  "run_inference setup rt agent_run question_text output_dir instance_id clk ids fs =
     (case setup of
        SetupRaises m \<Rightarrow> (Inl m, fs)
      | SetupReturnsNone \<Rightarrow> (Inr PyNone, fs)
      | SetupCompletes \<Rightarrow>
          (let task_id = instance_id;
               output = output_of_try rt agent_run task_id
           in case console_print rt (PrintCleaning task_id) of
                Some m \<Rightarrow> (Inl m, fs)
              | None \<Rightarrow>
                  (case (case logger_close rt of
                           None \<Rightarrow> None
                         | Some e \<Rightarrow> console_print rt (PrintCloseWarning e)) of
                     Some m \<Rightarrow> (Inl m, fs)
                   | None \<Rightarrow>
                       (let result = inference_result instance_id question_text output clk ids;
                            output_file = output_file_of output_dir instance_id;
                            output_str = (if truthy output then py_str output else []);
                            written = (truthy output \<and> \<not> startswith output_str ''Error:'');
                            fs' = (if written then fs(output_file \<mapsto> result) else fs)
                        in case console_print rt
                                  (if written then PrintSaved output_file else PrintNotSaved) of
                             Some m \<Rightarrow> (Inl m, fs')
                           | None \<Rightarrow>
                               (case console_print rt (PrintAnswer (py_str output)) of
                                  Some m \<Rightarrow> (Inl m, fs')
                                | None \<Rightarrow> (Inr output, fs'))))))"


section \<open>Task Scheduler: one task under a deadline\<close>




record example =
  instance_id :: string
  task_id :: "py_value option"
  query :: string




subsection \<open>Properties of the deadline\<close>





section \<open>Task Scheduler: the result of a task in a batch\<close>







subsection \<open>Properties of \<^verbatim>\<open>run_inference\<close> and of what follows it in a batch\<close>

lemma startswith_Error: "startswith (''Error: '' @ e) ''Error:''"
  by (simp add: startswith_def)







text \<open>
  What a print that raises does. When the print of the error details raises, the
  assignment of the error text is not reached, and \<^verbatim>\<open>run_inference\<close> returns \<^verbatim>\<open>None\<close> for a
  run that raised; when the print of the answer raises, the exception leaves
  \<^verbatim>\<open>run_inference\<close>.
\<close>

lemma run_inference_print_raises:
  assumes "console_print rt (PrintRunning i) = None" "console_print rt (PrintErrorType i) = None"
    and "console_print rt (PrintCleaning i) = None" "logger_close rt = None"
    and "console_print rt PrintNotSaved = None"
  shows "console_print rt (PrintErrorDetails e) = Some m
           \<and> console_print rt (PrintAnswer ''None'') = None
         \<Longrightarrow> run_inference SetupCompletes rt (RaisesException e) q output_dir i clk ids fs
               = (Inr PyNone, fs)"
    and "console_print rt (PrintErrorDetails e) = None
           \<and> console_print rt (PrintAnswer (''Error: '' @ e)) = Some m
         \<Longrightarrow> run_inference SetupCompletes rt (RaisesException e) q output_dir i clk ids fs
               = (Inl m, fs)"
  using assms startswith_Error [of e]
  by (simp_all add: run_inference_def output_of_try_def except_clause_def Let_def)

lemma run_inference_other_prints_raise:
  assumes "console_print rt (PrintErrorType i) = None"
    and "\<forall>e. console_print rt (PrintErrorDetails e) = None"
  shows "console_print rt (PrintRunning i) = Some m
         \<Longrightarrow> output_of_try rt agent_run i = PyStr (''Error: '' @ m)"
    and "console_print rt (PrintRunning i) = None \<and> console_print rt (PrintCompleted i) = Some m
         \<Longrightarrow> output_of_try rt (Returns v) i = PyStr (''Error: '' @ m)"
    and "console_print rt (PrintCleaning i) = Some m
         \<Longrightarrow> run_inference SetupCompletes rt agent_run q output_dir i clk ids fs = (Inl m, fs)"
    and "console_print rt (PrintCleaning i) = None \<and> logger_close rt = Some c
           \<and> console_print rt (PrintCloseWarning c) = Some m
         \<Longrightarrow> run_inference SetupCompletes rt agent_run q output_dir i clk ids fs = (Inl m, fs)"
    and "console_print rt (PrintRunning i) = None \<and> console_print rt (PrintCompleted i) = None
           \<and> console_print rt (PrintCleaning i) = None \<and> logger_close rt = None
           \<and> truthy v \<and> \<not> startswith (py_str v) ''Error:''
           \<and> console_print rt (PrintSaved (output_file_of output_dir i)) = Some m
         \<Longrightarrow> run_inference SetupCompletes rt (Returns v) q output_dir i clk ids fs
               = (Inl m, fs(output_file_of output_dir i \<mapsto> inference_result i q v clk ids))"
    and "console_print rt (PrintRunning i) = None \<and> console_print rt (PrintCompleted i) = None
           \<and> console_print rt (PrintCleaning i) = None \<and> logger_close rt = None
           \<and> \<not> truthy v
           \<and> console_print rt PrintNotSaved = Some m
         \<Longrightarrow> run_inference SetupCompletes rt (Returns v) q output_dir i clk ids fs = (Inl m, fs)"
  using assms
  by (simp_all add: run_inference_def output_of_try_def except_clause_def Let_def)




end
